theory Spec2Isabelle
  imports Complex_Main
begin

section \<open>Data model of the network graph component\<close>

text \<open>
  The component under study is \<^verbatim>\<open>NetworkGraph\<close> (React + d3).  JavaScript numbers are
  modelled as \<^typ>\<open>real\<close>.  The d3 library is not part of the sources; what the component
  needs from it is either a parameter (the simulation's tick) or a definition marked as
  modelled from the specification.
  The interfaces \<^verbatim>\<open>NetworkNode\<close>, \<^verbatim>\<open>NetworkLink\<close> and \<^verbatim>\<open>NetworkData\<close> become records; the
  fields \<^verbatim>\<open>id\<close>, \<^verbatim>\<open>group\<close> and \<^verbatim>\<open>value\<close> are renamed because the plain names are taken.
\<close>

record NetworkNode =
  node_id :: string
  node_group :: real

record NetworkLink =
  source :: string
  target :: string
  link_value :: real

record NetworkData =
  nodes :: "NetworkNode list"
  links :: "NetworkLink list"


section \<open>Dataset validation inside \<^verbatim>\<open>fetchData\<close>\<close>

text \<open>
  \<^verbatim>\<open>const nodeIds = new Set(jsonData.nodes.map(node => node.id))\<close>.
  Only membership is ever asked of this set.
\<close>

definition nodeIds :: "NetworkData \<Rightarrow> string set" where
  "nodeIds jsonData = set (map node_id (nodes jsonData))"

text \<open>
  \<^verbatim>\<open>jsonData.links.filter(link => !nodeIds.has(link.source) || !nodeIds.has(link.target))\<close>
\<close>

definition invalidLinks :: "NetworkData \<Rightarrow> NetworkLink list" where
  "invalidLinks jsonData =
     filter (\<lambda>link. source link \<notin> nodeIds jsonData \<or> target link \<notin> nodeIds jsonData)
       (links jsonData)"

text \<open>
  The payload is rewritten only when at least one invalid link was found; the list of
  invalid links is then also handed to \<^verbatim>\<open>console.warn\<close>.  The function returns the dataset
  that is passed to \<^verbatim>\<open>setData\<close> together with the optional diagnostic.
\<close>

definition validateLinks :: "NetworkData \<Rightarrow> NetworkData \<times> NetworkLink list option" where
  "validateLinks jsonData =
     (if length (invalidLinks jsonData) > 0
      then (jsonData\<lparr>links :=
               filter (\<lambda>link. source link \<in> nodeIds jsonData \<and> target link \<in> nodeIds jsonData)
                 (links jsonData)\<rparr>,
            Some (invalidLinks jsonData))
      else (jsonData, None))"


section \<open>Layout adapter: simulation nodes, node map and simulation links\<close>

text \<open>
  \<^verbatim>\<open>interface SimulationNetworkNode extends d3.SimulationNodeDatum, NetworkNode\<close>.
  The d3 fields \<^verbatim>\<open>x\<close>, \<^verbatim>\<open>y\<close> are called \<open>xpos\<close>, \<open>ypos\<close>; \<^verbatim>\<open>fx\<close>, \<^verbatim>\<open>fy\<close> are
  \<^verbatim>\<open>number | null\<close> and become options.
\<close>

record SimulationNetworkNode = NetworkNode +
  xpos :: real
  ypos :: real
  vx :: real
  vy :: real
  fx :: "real option"
  fy :: "real option"

record Dimensions =
  width :: real
  height :: real

text \<open>
  \<^verbatim>\<open>data.nodes.map(node => ({...node, x: width / 2 + (Math.random() - 0.5) * 100, ...}))\<close>.
  \<^verbatim>\<open>Math.random\<close> is the stream \<open>random\<close>: \<open>random n\<close> is the value of the \<open>n\<close>-th call,
  and \<open>n\<close> counts the calls made so far.  Each node draws two values, \<^verbatim>\<open>x\<close> first.
\<close>

fun simulationNodes ::
  "Dimensions \<Rightarrow> (nat \<Rightarrow> real) \<Rightarrow> nat \<Rightarrow> NetworkNode list \<Rightarrow> SimulationNetworkNode list" where
  "simulationNodes dims random n [] = []"
| "simulationNodes dims random n (node # rest) =
     \<lparr>node_id = node_id node, node_group = node_group node,
      xpos = width dims / 2 + (random n - 0.5) * 100,
      ypos = height dims / 2 + (random (n + 1) - 0.5) * 100,
      vx = 0, vy = 0, fx = None, fy = None\<rparr>
     # simulationNodes dims random (n + 2) rest"

text \<open>
  \<^verbatim>\<open>nodeMap.set(node.id, simNode)\<close> stores a reference to the object just created.  The
  objects live in the array \<^verbatim>\<open>simulationNodes\<close> and are mutated there by the simulation,
  so a reference is modelled as the index of the object in that array.  A later node
  with the same id overwrites the entry, as \<^verbatim>\<open>Map.set\<close> does.
\<close>

fun nodeMap_from :: "nat \<Rightarrow> NetworkNode list \<Rightarrow> (string \<rightharpoonup> nat) \<Rightarrow> (string \<rightharpoonup> nat)" where
  "nodeMap_from i [] m = m"
| "nodeMap_from i (node # rest) m = nodeMap_from (i + 1) rest (m(node_id node \<mapsto> i))"

definition nodeMap :: "NetworkNode list \<Rightarrow> (string \<rightharpoonup> nat)" where
  "nodeMap ns = nodeMap_from 0 ns Map.empty"

text \<open>
  \<^verbatim>\<open>interface SimulationLink\<close> after the adapter ran: \<^verbatim>\<open>source\<close> and \<^verbatim>\<open>target\<close> are object
  references, here indices into the simulation node array.
\<close>

record SimulationLink =
  sl_source :: nat
  sl_target :: nat
  sl_value :: real

text \<open>
  \<^verbatim>\<open>data.links.map(link => { ... if (!sourceNode || !targetNode) return null; ... })
     .filter(link => link !== null)\<close>
\<close>

definition simulationLink :: "(string \<rightharpoonup> nat) \<Rightarrow> NetworkLink \<Rightarrow> SimulationLink option" where
  "simulationLink m link =
     (case m (source link) of
        None \<Rightarrow> None
      | Some sourceNode \<Rightarrow>
          (case m (target link) of
             None \<Rightarrow> None
           | Some targetNode \<Rightarrow>
               Some \<lparr>sl_source = sourceNode, sl_target = targetNode,
                     sl_value = link_value link\<rparr>))"

definition simulationLinks :: "NetworkData \<Rightarrow> SimulationLink list" where
  "simulationLinks data = List.map_filter (simulationLink (nodeMap (nodes data))) (links data)"

text \<open>\<^verbatim>\<open>(link.source as SimulationNetworkNode).id\<close> and the same for the target.\<close>

definition sourceId :: "SimulationNetworkNode list \<Rightarrow> SimulationLink \<Rightarrow> string" where
  "sourceId simNodes link = node_id (simNodes ! sl_source link)"

definition targetId :: "SimulationNetworkNode list \<Rightarrow> SimulationLink \<Rightarrow> string" where
  "targetId simNodes link = node_id (simNodes ! sl_target link)"


section \<open>Group identifiers and the colour scale\<close>

text \<open>
  A JavaScript \<^verbatim>\<open>Set\<close> iterates in insertion order, and \<^verbatim>\<open>Array.from\<close> reads it in that
  order.  Where the order is observed the set is therefore the list of its elements in
  insertion order: \<open>Set_add\<close> is \<^verbatim>\<open>Set.prototype.add\<close>, \<open>new_Set\<close> the constructor from an
  iterable.
\<close>

definition Set_add :: "'a list \<Rightarrow> 'a \<Rightarrow> 'a list" where
  "Set_add s v = (if v \<in> set s then s else s @ [v])"

definition new_Set :: "'a list \<Rightarrow> 'a list" where
  "new_Set vs = foldl Set_add [] vs"

text \<open>\<^verbatim>\<open>const groupIds = Array.from(new Set(data.nodes.map(node => node.group)))\<close>\<close>

definition groupIds :: "NetworkData \<Rightarrow> real list" where
  "groupIds data = new_Set (map node_group (nodes data))"

text \<open>
  Modelled from the spec: the palette \<^verbatim>\<open>d3.schemeCategory10\<close> of d3-scale-chromatic, the
  ``fixed 10-color palette'' of the specification, with the ten colour codes the library
  publishes.
\<close>

definition schemeCategory10 :: "string list" where
  "schemeCategory10 =
     [''#1f77b4'', ''#ff7f0e'', ''#2ca02c'', ''#d62728'', ''#9467bd'',
      ''#8c564b'', ''#e377c2'', ''#7f7f7f'', ''#bcbd22'', ''#17becf'']"

text \<open>
  Modelled from the spec: \<^verbatim>\<open>d3.scaleOrdinal\<close> of d3-scale, used as
  \<^verbatim>\<open>d3.scaleOrdinal().domain(groupIds).range(d3.schemeCategory10)\<close>; the specification calls
  it a deterministic categorical colour assignment that repeats cyclically.  An ordinal
  scale keeps its domain as an array without repetitions and an index of it; applied
  to a value at position \<open>i\<close> of the domain it returns \<^verbatim>\<open>range[i % range.length]\<close>, and
  applied to a value outside the domain it first appends that value to the domain
  (the scale's implicit mode, which this code never switches off).  The application
  therefore returns the colour together with the scale.
\<close>

record ordinal =
  scale_domain :: "real list"
  scale_range :: "string list"

fun index_of :: "'a list \<Rightarrow> 'a \<Rightarrow> nat option" where
  "index_of [] v = None"
| "index_of (u # us) v = (if u = v then Some 0 else map_option Suc (index_of us v))"

definition scaleOrdinal :: "real list \<Rightarrow> string list \<Rightarrow> ordinal" where
  "scaleOrdinal ds rs = \<lparr>scale_domain = new_Set ds, scale_range = rs\<rparr>"

definition scale_apply :: "ordinal \<Rightarrow> real \<Rightarrow> string \<times> ordinal" where
  "scale_apply sc d =
     (case index_of (scale_domain sc) d of
        Some i \<Rightarrow> (scale_range sc ! (i mod length (scale_range sc)), sc)
      | None \<Rightarrow>
          (scale_range sc ! (length (scale_domain sc) mod length (scale_range sc)),
           sc\<lparr>scale_domain := scale_domain sc @ [d]\<rparr>))"

definition colorScale :: "NetworkData \<Rightarrow> ordinal" where
  "colorScale data = scaleOrdinal (groupIds data) schemeCategory10"

text \<open>
  The words of the specification, to compare with: the distinct values of a list in
  first-seen order are the entries that do not occur at an earlier position.
\<close>

definition first_seen :: "'a list \<Rightarrow> 'a list" where
  "first_seen vs = map (\<lambda>i. vs ! i) (filter (\<lambda>i. vs ! i \<notin> set (take i vs)) [0..<length vs])"


section \<open>The force simulation and the construction of the scene\<close>

text \<open>
  The state of a \<^verbatim>\<open>d3.forceSimulation\<close> as far as this component reads or writes it:
  the node array, \<^verbatim>\<open>alpha\<close>, \<^verbatim>\<open>alphaTarget\<close> and whether the internal timer runs.
  One integration step, \<^verbatim>\<open>simulation.tick()\<close> with the four forces registered here, is
  the library's business and is a parameter \<open>tick\<close> of everything below.
\<close>

record Simulation =
  sim_nodes :: "SimulationNetworkNode list"
  alpha :: real
  alphaTarget :: real
  timer_running :: bool

text \<open>
  Modelled from the spec: the constructor \<^verbatim>\<open>d3.forceSimulation(nodes)\<close> of d3-force.  The
  temperature ``starts high'' (\<^verbatim>\<open>alpha = 1\<close>) with a zero floor (\<^verbatim>\<open>alphaTarget = 0\<close>), the
  timer runs, and the nodes are taken as they are.
\<close>

definition forceSimulation :: "SimulationNetworkNode list \<Rightarrow> Simulation" where
  "forceSimulation simNodes =
     \<lparr>sim_nodes = simNodes, alpha = 1, alphaTarget = 0, timer_running = True\<rparr>"

text \<open>\<^verbatim>\<open>for (let i = 0; i < 50; i++) { simulation.tick(); }\<close>\<close>

function prewarm :: "(Simulation \<Rightarrow> Simulation) \<Rightarrow> nat \<Rightarrow> Simulation \<Rightarrow> Simulation" where
  "prewarm tick i sim = (if i < 50 then prewarm tick (i + 1) (tick sim) else sim)"
  by pat_completeness auto
termination
  by (relation "measure (\<lambda>(tick, i, sim). 50 - i)") auto

text \<open>
  \<^verbatim>\<open>updatePositions\<close> writes the position attributes of circles, lines and labels.
  \<^verbatim>\<open>d.x || 0\<close> replaces a falsy coordinate by \<open>0\<close>; the only falsy real is \<open>0\<close>.  A line
  reads its end points through the node references of its link.
\<close>

record Geometry =
  circles :: "(real \<times> real) list"
  lines :: "((real \<times> real) \<times> (real \<times> real)) list"
  labels :: "(real \<times> real) list"

definition or0 :: "real \<Rightarrow> real" where
  "or0 v = (if v = 0 then 0 else v)"

definition updatePositions :: "SimulationNetworkNode list \<Rightarrow> SimulationLink list \<Rightarrow> Geometry" where
  "updatePositions simNodes simLinks =
     \<lparr>circles = map (\<lambda>d. (or0 (xpos d), or0 (ypos d))) simNodes,
      lines = map (\<lambda>d. ((or0 (xpos (simNodes ! sl_source d)), or0 (ypos (simNodes ! sl_source d))),
                        (or0 (xpos (simNodes ! sl_target d)), or0 (ypos (simNodes ! sl_target d)))))
                simLinks,
      labels = map (\<lambda>d. (or0 (xpos d), or0 (ypos d))) simNodes\<rparr>"

text \<open>
  \<^verbatim>\<open>nodeConnectionCounts\<close>: a \<^verbatim>\<open>Map<string, number>\<close> filled by one pass over the simulation
  links.  \<^verbatim>\<open>(nodeConnectionCounts.get(id) || 0) + 1\<close> reads a missing entry, and an entry
  \<open>0\<close>, as \<open>0\<close>.
\<close>

definition get_or0 :: "(string \<rightharpoonup> nat) \<Rightarrow> string \<Rightarrow> nat" where
  "get_or0 m i = (case m i of None \<Rightarrow> 0 | Some c \<Rightarrow> (if c = 0 then 0 else c))"

definition count_link ::
  "SimulationNetworkNode list \<Rightarrow> SimulationLink \<Rightarrow> (string \<rightharpoonup> nat) \<Rightarrow> (string \<rightharpoonup> nat)" where
  "count_link simNodes link m =
     (let m1 = m(sourceId simNodes link \<mapsto> get_or0 m (sourceId simNodes link) + 1)
      in m1(targetId simNodes link \<mapsto> get_or0 m1 (targetId simNodes link) + 1))"

definition nodeConnectionCounts ::
  "SimulationNetworkNode list \<Rightarrow> SimulationLink list \<Rightarrow> (string \<rightharpoonup> nat)" where
  "nodeConnectionCounts simNodes simLinks = fold (count_link simNodes) simLinks Map.empty"

text \<open>
  What the visualization effect leaves behind.  \<open>paints\<close> records every call of
  \<^verbatim>\<open>updatePositions\<close>, oldest first; \<open>tick_listener\<close> says whether
  \<^verbatim>\<open>simulation.on('tick', updatePositions)\<close> has happened.
\<close>

record Scene =
  simulation :: Simulation
  scene_links :: "SimulationLink list"
  color :: ordinal
  connectionCounts :: "string \<rightharpoonup> nat"
  paints :: "Geometry list"
  tick_listener :: bool

text \<open>
  The body of the visualization effect in the order of the source: adapter, colour
  scale, simulation, pre-warm loop, connection counts, the first
  \<^verbatim>\<open>updatePositions()\<close>, registration of the tick listener, and
  \<^verbatim>\<open>simulation.alpha(1).restart()\<close>.  \<open>n\<close> is the number of \<^verbatim>\<open>Math.random\<close> calls made
  before.
\<close>

definition paint :: "Scene \<Rightarrow> Scene" where
  "paint sc = sc\<lparr>paints := paints sc @
                 [updatePositions (sim_nodes (simulation sc)) (scene_links sc)]\<rparr>"

definition createVisualization ::
  "(Simulation \<Rightarrow> Simulation) \<Rightarrow> (nat \<Rightarrow> real) \<Rightarrow> nat \<Rightarrow> Dimensions \<Rightarrow> NetworkData \<Rightarrow> Scene" where
  "createVisualization tick random n dims data =
     (let simNodes = simulationNodes dims random n (nodes data);
          simLinks = simulationLinks data;
          sim = prewarm tick 0 (forceSimulation simNodes);
          sc0 = \<lparr>simulation = sim, scene_links = simLinks, color = colorScale data,
                 connectionCounts = nodeConnectionCounts (sim_nodes sim) simLinks,
                 paints = [], tick_listener = False\<rparr>;
          sc1 = paint sc0;
          sc2 = sc1\<lparr>tick_listener := True\<rparr>
      in sc2\<lparr>simulation := (simulation sc2)\<lparr>alpha := 1, timer_running := True\<rparr>\<rparr>)"

text \<open>
  Modelled from the spec: one firing of the internal timer of d3-force, the per-frame
  callback of the specification.  It performs a tick, then sends the \<^verbatim>\<open>tick\<close> event to the
  registered listener, then stops the timer once \<^verbatim>\<open>alpha\<close> is below \<^verbatim>\<open>alphaMin = 0.001\<close>
  (``halts position updates once sufficiently cooled'').
\<close>

definition timer_step :: "(Simulation \<Rightarrow> Simulation) \<Rightarrow> Scene \<Rightarrow> Scene" where
  "timer_step tick sc =
     (if \<not> timer_running (simulation sc) then sc
      else
        let sc1 = sc\<lparr>simulation := tick (simulation sc)\<rparr>;
            sc2 = (if tick_listener sc1 then paint sc1 else sc1)
        in if alpha (simulation sc2) < 0.001
           then sc2\<lparr>simulation := (simulation sc2)\<lparr>timer_running := False\<rparr>\<rparr>
           else sc2)"


section \<open>Drag handlers\<close>

text \<open>
  The three listeners of \<^verbatim>\<open>dragBehavior\<close>.  \<open>active\<close> is \<^verbatim>\<open>event.active\<close>, the number of
  other drag gestures in progress; \<open>subject\<close> is \<^verbatim>\<open>event.subject\<close>, a reference into the
  node array; \<open>ex\<close>, \<open>ey\<close> are \<^verbatim>\<open>event.x\<close>, \<^verbatim>\<open>event.y\<close>.
  \<^verbatim>\<open>simulation.alphaTarget(0.3).restart()\<close> sets the target and restarts the timer.
\<close>

definition update_node ::
  "nat \<Rightarrow> (SimulationNetworkNode \<Rightarrow> SimulationNetworkNode) \<Rightarrow> Simulation \<Rightarrow> Simulation" where
  "update_node subject f sim =
     (if subject < length (sim_nodes sim)
      then sim\<lparr>sim_nodes := (sim_nodes sim)[subject := f (sim_nodes sim ! subject)]\<rparr>
      else sim)"

definition drag_start :: "nat \<Rightarrow> nat \<Rightarrow> Simulation \<Rightarrow> Simulation" where
  "drag_start active subject sim =
     update_node subject (\<lambda>d. d\<lparr>fx := Some (xpos d), fy := Some (ypos d)\<rparr>)
       (if active = 0 then sim\<lparr>alphaTarget := 0.3, timer_running := True\<rparr> else sim)"

definition drag_move :: "real \<Rightarrow> real \<Rightarrow> nat \<Rightarrow> Simulation \<Rightarrow> Simulation" where
  "drag_move ex ey subject sim = update_node subject (\<lambda>d. d\<lparr>fx := Some ex, fy := Some ey\<rparr>) sim"

definition drag_end :: "nat \<Rightarrow> nat \<Rightarrow> Simulation \<Rightarrow> Simulation" where
  "drag_end active subject sim =
     update_node subject (\<lambda>d. d\<lparr>fx := None, fy := None\<rparr>)
       (if active = 0 then sim\<lparr>alphaTarget := 0\<rparr> else sim)"

text \<open>
  A gesture without pointer movement: \<^verbatim>\<open>start\<close>, then as many timer ticks as happen to
  fall between pointer-down and pointer-up, then \<^verbatim>\<open>end\<close>.
\<close>

definition click_gesture ::
  "(Simulation \<Rightarrow> Simulation) \<Rightarrow> nat \<Rightarrow> nat \<Rightarrow> nat \<Rightarrow> Simulation \<Rightarrow> Simulation" where
  "click_gesture tick ticks active subject sim =
     drag_end active subject ((tick ^^ ticks) (drag_start active subject sim))"

text \<open>A node pinned to the place where it is.\<close>

definition pinned :: "SimulationNetworkNode \<Rightarrow> bool" where
  "pinned d = (fx d = Some (xpos d) \<and> fy d = Some (ypos d))"

text \<open>
  Modelled from the spec: what the handlers rely on from the tick of d3-force, ``pinned
  position, when present, overrides physics-driven position updates''.  A tick keeps the
  number of nodes, leaves \<^verbatim>\<open>fx\<close> and \<^verbatim>\<open>fy\<close> alone, and a pinned node sits at its pinned
  position after it (d3-force: \<^verbatim>\<open>node.x = node.fx\<close>).
\<close>

definition respects_pins :: "(Simulation \<Rightarrow> Simulation) \<Rightarrow> bool" where
  "respects_pins tick =
     (\<forall>sim. length (sim_nodes (tick sim)) = length (sim_nodes sim) \<and>
        (\<forall>i < length (sim_nodes sim).
           fx (sim_nodes (tick sim) ! i) = fx (sim_nodes sim ! i) \<and>
           fy (sim_nodes (tick sim) ! i) = fy (sim_nodes sim ! i) \<and>
           (fx (sim_nodes sim ! i) \<noteq> None \<longrightarrow>
              Some (xpos (sim_nodes (tick sim) ! i)) = fx (sim_nodes sim ! i)) \<and>
           (fy (sim_nodes sim ! i) \<noteq> None \<longrightarrow>
              Some (ypos (sim_nodes (tick sim) ! i)) = fy (sim_nodes sim ! i))))"

text \<open>
  Modelled from the spec: a tick of d3-force with no force registered, used as an
  instance of \<open>tick\<close>.  Velocities decay
  by \<^verbatim>\<open>velocityDecay = 0.6\<close>, free nodes move by their velocity, pinned nodes are put on
  their pin with velocity \<open>0\<close>, and \<^verbatim>\<open>alpha\<close> moves towards its target by
  \<^verbatim>\<open>alphaDecay = 1 - 0.001 ** (1 / 300)\<close>, here the parameter \<open>decay\<close>.
\<close>

definition integrate :: "SimulationNetworkNode \<Rightarrow> SimulationNetworkNode" where
  "integrate d =
     (let d1 = (case fx d of
                  None \<Rightarrow> d\<lparr>vx := vx d * 0.6, xpos := xpos d + vx d * 0.6\<rparr>
                | Some px \<Rightarrow> d\<lparr>xpos := px, vx := 0\<rparr>)
      in case fy d1 of
           None \<Rightarrow> d1\<lparr>vy := vy d1 * 0.6, ypos := ypos d1 + vy d1 * 0.6\<rparr>
         | Some py \<Rightarrow> d1\<lparr>ypos := py, vy := 0\<rparr>)"

definition free_tick :: "real \<Rightarrow> Simulation \<Rightarrow> Simulation" where
  "free_tick decay sim =
     sim\<lparr>alpha := alpha sim + (alphaTarget sim - alpha sim) * decay,
         sim_nodes := map integrate (sim_nodes sim)\<rparr>"


section \<open>Hover: highlight set and tooltip\<close>

text \<open>
  The \<^verbatim>\<open>mouseover\<close> listener starts \<^verbatim>\<open>connectedNodeIds\<close> with the id of the hovered node
  \<open>d\<close> and adds both end points of every simulation link that has \<open>d\<close>'s id at one end.
\<close>

definition connect_link ::
  "SimulationNetworkNode list \<Rightarrow> SimulationNetworkNode \<Rightarrow> SimulationLink \<Rightarrow> string set \<Rightarrow> string set" where
  "connect_link simNodes d link ids =
     (if sourceId simNodes link = node_id d \<or> targetId simNodes link = node_id d
      then insert (targetId simNodes link) (insert (sourceId simNodes link) ids)
      else ids)"

definition connectedNodeIds ::
  "SimulationNetworkNode list \<Rightarrow> SimulationLink list \<Rightarrow> SimulationNetworkNode \<Rightarrow> string set" where
  "connectedNodeIds simNodes simLinks d = fold (connect_link simNodes d) simLinks {node_id d}"

text \<open>
  The opacities after the listener ran: every node is dimmed to \<open>0.2\<close>, the nodes whose
  id is in the set are put back to \<open>1\<close>.  The tooltip shows the id, the group and
  \<^verbatim>\<open>nodeConnectionCounts.get(d.id) || 0\<close>.
\<close>

definition node_opacities ::
  "SimulationNetworkNode list \<Rightarrow> SimulationLink list \<Rightarrow> SimulationNetworkNode \<Rightarrow> real list" where
  "node_opacities simNodes simLinks d =
     map (\<lambda>node. if node_id node \<in> connectedNodeIds simNodes simLinks d then 1 else 0.2) simNodes"

record Tooltip =
  tip_id :: string
  tip_group :: real
  tip_connections :: nat

definition tooltip :: "(string \<rightharpoonup> nat) \<Rightarrow> SimulationNetworkNode \<Rightarrow> Tooltip" where
  "tooltip counts d =
     \<lparr>tip_id = node_id d, tip_group = node_group d, tip_connections = get_or0 counts (node_id d)\<rparr>"


section \<open>Resize handlers\<close>

text \<open>
  \<^verbatim>\<open>handleResize\<close> of the network graph.  \<open>container\<close> is \<^verbatim>\<open>containerRef.current\<close>: \<open>None\<close>
  for \<^verbatim>\<open>null\<close>, otherwise the element's \<^verbatim>\<open>clientWidth\<close>, a non-negative integer.
  \<^verbatim>\<open>clientWidth || 800\<close> replaces the width \<open>0\<close> by \<open>800\<close>.  The result is the value of the
  \<^verbatim>\<open>dimensions\<close> state afterwards.
\<close>

definition handleResize :: "nat option \<Rightarrow> Dimensions \<Rightarrow> Dimensions" where
  "handleResize container dims =
     (case container of
        None \<Rightarrow> dims
      | Some clientWidth \<Rightarrow>
          (let containerWidth = (if clientWidth = 0 then 800 else real clientWidth)
           in \<lparr>width = containerWidth, height = min (containerWidth * 0.75) 600\<rparr>))"

text \<open>\<^verbatim>\<open>handleResize\<close> of \<^verbatim>\<open>Treemap.tsx\<close>, lines 40 to 48.\<close>

definition treemap_handleResize :: "nat option \<Rightarrow> Dimensions \<Rightarrow> Dimensions" where
  "treemap_handleResize container dims =
     (case container of
        None \<Rightarrow> dims
      | Some clientWidth \<Rightarrow>
          (let containerWidth = (if clientWidth = 0 then 800 else real clientWidth)
           in \<lparr>width = containerWidth, height = min (containerWidth * 0.75) 600\<rparr>))"


section \<open>The component: state, rendering, fetch and effects\<close>

text \<open>A d3 zoom transform \<^verbatim>\<open>{k, x, y}\<close>.\<close>

record Transform =
  scale_k :: real
  translate_x :: real
  translate_y :: real

text \<open>
  Modelled from the spec: \<^verbatim>\<open>d3.zoomIdentity\<close> of d3-zoom, the ``identity transform'' with
  scale \<open>1\<close> and translation \<open>(0, 0)\<close>.
\<close>

definition zoomIdentity :: Transform where
  "zoomIdentity = \<lparr>scale_k = 1, translate_x = 0, translate_y = 0\<rparr>"

text \<open>
  The React state of \<^verbatim>\<open>NetworkGraph\<close> (\<open>data\<close>, \<open>dimensions\<close>, \<open>isLoading\<close>, \<open>error\<close>,
  \<open>zoomLevel\<close>), the ref \<^verbatim>\<open>zoomBehaviorRef\<close> (\<open>True\<close> once it holds a zoom behaviour), and
  what the effects keep outside React: the transform d3-zoom stores on the \<^verbatim>\<open>svg\<close>
  element (\<open>svg_zoom\<close>), the \<^verbatim>\<open>transform\<close> attribute of the zoom container
  (\<open>g_transform\<close>), the scene, the number of \<^verbatim>\<open>fetch\<close> requests issued and the number of
  \<^verbatim>\<open>Math.random\<close> calls made.
\<close>

record NetworkGraph =
  data :: "NetworkData option"
  dimensions :: Dimensions
  isLoading :: bool
  error :: "string option"
  zoomLevel :: real
  zoomBehaviorRef :: bool
  svg_zoom :: Transform
  g_transform :: Transform
  scene :: "Scene option"
  fetches :: nat
  random_calls :: nat

definition initial :: NetworkGraph where
  "initial =
     \<lparr>data = None, dimensions = \<lparr>width = 800, height = 600\<rparr>, isLoading = True,
      error = None, zoomLevel = 1, zoomBehaviorRef = False, svg_zoom = zoomIdentity,
      g_transform = zoomIdentity, scene = None, fetches = 0, random_calls = 0\<rparr>"

text \<open>
  The three return statements of the component.  The \<^verbatim>\<open>svg\<close> and the container exist,
  and their refs are set, exactly when the chart view is rendered.
\<close>

datatype view = LoadingView | ErrorView | ChartView

definition render :: "NetworkGraph \<Rightarrow> view" where
  "render c = (if isLoading c then LoadingView
               else if error c \<noteq> None then ErrorView
               else ChartView)"

definition svgRef :: "NetworkGraph \<Rightarrow> bool" where
  "svgRef c = (render c = ChartView)"

definition containerRef :: "NetworkGraph \<Rightarrow> bool" where
  "containerRef c = (render c = ChartView)"

text \<open>
  What \<^verbatim>\<open>fetch\<close> and \<^verbatim>\<open>response.json()\<close> can deliver: no response at all (the promise
  rejects), a response with its \<^verbatim>\<open>ok\<close> flag, and a body that is not JSON, that is JSON
  without the two arrays (\<^verbatim>\<open>jsonData.nodes.map\<close> or \<^verbatim>\<open>jsonData.links.filter\<close> throws), or
  that is a dataset.  Every throw lands in the one \<^verbatim>\<open>catch\<close>.
\<close>

datatype body = InvalidJson | WrongShape | Payload NetworkData

datatype response = NoResponse | Response bool body

definition load_failed :: "NetworkGraph \<Rightarrow> NetworkGraph" where
  "load_failed c = c\<lparr>error := Some ''Error loading network graph data'', isLoading := False\<rparr>"

definition fetchData :: "response \<Rightarrow> NetworkGraph \<Rightarrow> NetworkGraph" where
  "fetchData r c =
     (let c1 = c\<lparr>isLoading := True, fetches := fetches c + 1\<rparr>
      in case r of
           NoResponse \<Rightarrow> load_failed c1
         | Response ok b \<Rightarrow>
             (if \<not> ok then load_failed c1
              else case b of
                     InvalidJson \<Rightarrow> load_failed c1
                   | WrongShape \<Rightarrow> load_failed c1
                   | Payload jsonData \<Rightarrow>
                       c1\<lparr>data := Some (fst (validateLinks jsonData)), isLoading := False\<rparr>))"

text \<open>
  The visualization effect: the guard, then the construction.  The new zoom container
  carries no \<^verbatim>\<open>transform\<close> attribute; \<^verbatim>\<open>svg.call(zoomBehavior)\<close> keeps a transform already
  stored on the \<^verbatim>\<open>svg\<close>.  On a dataset of the declared type no step of the construction
  throws, so the \<^verbatim>\<open>catch\<close> of the effect has no branch here.
\<close>

definition visualize ::
  "(Simulation \<Rightarrow> Simulation) \<Rightarrow> (nat \<Rightarrow> real) \<Rightarrow> NetworkGraph \<Rightarrow> NetworkGraph" where
  "visualize tick random c =
     (case data c of
        None \<Rightarrow> c
      | Some d \<Rightarrow>
          (if \<not> svgRef c \<or> isLoading c then c
           else c\<lparr>scene := Some (createVisualization tick random (random_calls c) (dimensions c) d),
                  g_transform := zoomIdentity,
                  zoomBehaviorRef := True,
                  random_calls := random_calls c + 2 * length (nodes d)\<rparr>))"

text \<open>
  The loads that end in the \<^verbatim>\<open>catch\<close>: no response, a response that is not \<^verbatim>\<open>ok\<close>, a body
  that does not parse, a parsed body of the wrong shape.
\<close>

fun load_fails :: "response \<Rightarrow> bool" where
  "load_fails NoResponse = True"
| "load_fails (Response ok b) = (\<not> ok \<or> b = InvalidJson \<or> b = WrongShape)"


section \<open>Zoom buttons\<close>

text \<open>\<^verbatim>\<open>zoomBehavior.scaleExtent([0.5, 3])\<close>\<close>

definition scaleExtent :: "real \<times> real" where
  "scaleExtent = (0.5, 3)"

text \<open>
  Modelled from the spec: \<^verbatim>\<open>zoomBehavior.scaleTo\<close> of d3-zoom.  The requested factor is
  ``clamped'' to the extent; as d3-zoom documents, the translation is chosen so that the
  centre of the viewport stays where it is.
\<close>

definition scaleTo :: "Dimensions \<Rightarrow> Transform \<Rightarrow> real \<Rightarrow> Transform" where
  "scaleTo dims t0 k1 =
     (let k2 = max (fst scaleExtent) (min (snd scaleExtent) k1);
          p0x = width dims / 2;
          p0y = height dims / 2;
          p1x = (p0x - translate_x t0) / scale_k t0;
          p1y = (p0y - translate_y t0) / scale_k t0
      in \<lparr>scale_k = k2, translate_x = p0x - p1x * k2, translate_y = p0y - p1y * k2\<rparr>)"

text \<open>
  \<^verbatim>\<open>handleZoom\<close>, the listener of the \<^verbatim>\<open>zoom\<close> event: it writes the transform to the zoom
  container and the scale to the \<^verbatim>\<open>zoomLevel\<close> state.
\<close>

definition handleZoom :: "Transform \<Rightarrow> NetworkGraph \<Rightarrow> NetworkGraph" where
  "handleZoom t c = c\<lparr>g_transform := t, zoomLevel := scale_k t\<rparr>"

text \<open>
  Modelled from the spec: the end of a d3 transition to a transform \<open>t\<close> (``programmatic
  zoom changes animate smoothly over a fixed short duration'').  When it has run,
  d3-zoom has stored \<open>t\<close> on the \<^verbatim>\<open>svg\<close> and has emitted \<^verbatim>\<open>zoom\<close> with it.
\<close>

definition transition_to :: "Transform \<Rightarrow> NetworkGraph \<Rightarrow> NetworkGraph" where
  "transition_to t c = handleZoom t (c\<lparr>svg_zoom := t\<rparr>)"

definition handleZoomIn :: "NetworkGraph \<Rightarrow> NetworkGraph" where
  "handleZoomIn c =
     (if \<not> svgRef c \<or> \<not> zoomBehaviorRef c then c
      else
        let newZoomLevel = min (zoomLevel c + 0.2) 3
        in transition_to (scaleTo (dimensions c) (svg_zoom c) newZoomLevel)
             (c\<lparr>zoomLevel := newZoomLevel\<rparr>))"

definition handleZoomOut :: "NetworkGraph \<Rightarrow> NetworkGraph" where
  "handleZoomOut c =
     (if \<not> svgRef c \<or> \<not> zoomBehaviorRef c then c
      else
        let newZoomLevel = max (zoomLevel c - 0.2) 0.5
        in transition_to (scaleTo (dimensions c) (svg_zoom c) newZoomLevel)
             (c\<lparr>zoomLevel := newZoomLevel\<rparr>))"

definition handleZoomReset :: "NetworkGraph \<Rightarrow> NetworkGraph" where
  "handleZoomReset c =
     (if \<not> svgRef c \<or> \<not> zoomBehaviorRef c then c
      else transition_to zoomIdentity (c\<lparr>zoomLevel := 1\<rparr>))"

datatype zoom_button = ZoomIn | ZoomOut | ZoomReset

fun click :: "zoom_button \<Rightarrow> NetworkGraph \<Rightarrow> NetworkGraph" where
  "click ZoomIn c = handleZoomIn c"
| "click ZoomOut c = handleZoomOut c"
| "click ZoomReset c = handleZoomReset c"

definition in_extent :: "real \<Rightarrow> bool" where
  "in_extent v = (fst scaleExtent \<le> v \<and> v \<le> snd scaleExtent)"

text \<open>The three places where a scale factor is kept, all inside the extent.\<close>

definition zoom_ok :: "NetworkGraph \<Rightarrow> bool" where
  "zoom_ok c = (in_extent (zoomLevel c) \<and> in_extent (scale_k (svg_zoom c))
                \<and> in_extent (scale_k (g_transform c)))"


section \<open>Life of a mounted component\<close>

text \<open>
  Mounting renders the loading view, runs the fetch effect once (its dependency list is
  empty) and calls \<^verbatim>\<open>handleResize\<close> once while no container exists.  When the fetch has
  settled the component renders again and the visualization effect runs.  Afterwards
  the window can report a resize, a zoom button can be clicked and the simulation timer
  can fire.  A resize stores a fresh \<^verbatim>\<open>dimensions\<close> object, so the visualization effect
  runs again; a click changes none of its dependencies.
\<close>

datatype event = WindowResize nat | Click zoom_button | TimerFires

definition mount ::
  "(Simulation \<Rightarrow> Simulation) \<Rightarrow> (nat \<Rightarrow> real) \<Rightarrow> response \<Rightarrow> NetworkGraph" where
  "mount tick random r =
     visualize tick random
       (fetchData r (initial\<lparr>dimensions := handleResize None (dimensions initial)\<rparr>))"

fun step ::
  "(Simulation \<Rightarrow> Simulation) \<Rightarrow> (nat \<Rightarrow> real) \<Rightarrow> event \<Rightarrow> NetworkGraph \<Rightarrow> NetworkGraph" where
  "step tick random (WindowResize w) c =
     (if containerRef c
      then visualize tick random (c\<lparr>dimensions := handleResize (Some w) (dimensions c)\<rparr>)
      else c)"
| "step tick random (Click b) c = click b c"
| "step tick random TimerFires c = c\<lparr>scene := map_option (timer_step tick) (scene c)\<rparr>"

definition run ::
  "(Simulation \<Rightarrow> Simulation) \<Rightarrow> (nat \<Rightarrow> real) \<Rightarrow> event list \<Rightarrow> NetworkGraph \<Rightarrow> NetworkGraph" where
  "run tick random events c = fold (step tick random) events c"

text \<open>
  Whenever the chart view is on screen the dataset is there and the zoom behaviour has
  been stored in its ref.
\<close>

definition chart_ready :: "NetworkGraph \<Rightarrow> bool" where
  "chart_ready c = (render c = ChartView \<longrightarrow> data c \<noteq> None \<and> zoomBehaviorRef c)"


section \<open>Example datasets\<close>

text \<open>
  \<open>example_payload\<close> is the end-to-end example of the specification, with one dangling
  link.  \<open>star_payload\<close> has links A--B and C--A, none between B and C, and an isolated
  node D.  \<open>loop_payload\<close> has a self-loop and a dangling link.  \<open>seeded\<close> are simulation
  nodes for a dataset on the default surface with every random draw equal to one half.
\<close>

definition example_payload :: NetworkData where
  "example_payload =
     \<lparr>nodes = [\<lparr>node_id = ''a'', node_group = 1\<rparr>, \<lparr>node_id = ''b'', node_group = 1\<rparr>,
               \<lparr>node_id = ''x'', node_group = 2\<rparr>],
      links = [\<lparr>source = ''a'', target = ''b'', link_value = 4\<rparr>,
               \<lparr>source = ''a'', target = ''missing'', link_value = 1\<rparr>]\<rparr>"

definition star_payload :: NetworkData where
  "star_payload =
     \<lparr>nodes = [\<lparr>node_id = ''A'', node_group = 1\<rparr>, \<lparr>node_id = ''B'', node_group = 1\<rparr>,
               \<lparr>node_id = ''C'', node_group = 2\<rparr>, \<lparr>node_id = ''D'', node_group = 3\<rparr>],
      links = [\<lparr>source = ''A'', target = ''B'', link_value = 1\<rparr>,
               \<lparr>source = ''C'', target = ''A'', link_value = 2\<rparr>]\<rparr>"

definition loop_payload :: NetworkData where
  "loop_payload =
     \<lparr>nodes = [\<lparr>node_id = ''p'', node_group = 1\<rparr>, \<lparr>node_id = ''q'', node_group = 1\<rparr>,
               \<lparr>node_id = ''r'', node_group = 2\<rparr>],
      links = [\<lparr>source = ''p'', target = ''p'', link_value = 1\<rparr>,
               \<lparr>source = ''q'', target = ''p'', link_value = 2\<rparr>,
               \<lparr>source = ''q'', target = ''gone'', link_value = 2\<rparr>]\<rparr>"

definition seeded :: "NetworkData \<Rightarrow> SimulationNetworkNode list" where
  "seeded d = simulationNodes \<lparr>width = 800, height = 600\<rparr> (\<lambda>n. 1 / 2) 0 (nodes d)"

text \<open>
  \<open>twelve_groups\<close> has twelve distinct groups, two of them repeated.  \<open>chart\<close> is the
  component after the example dataset has loaded, \<open>zoomed\<close> the same after two clicks on
  zoom-in, \<open>failed\<close> the component after a load that failed.  \<open>moving\<close> is a simulation
  whose nodes all have a velocity.  \<open>drift\<close> is a stand-in for a tick that moves every node
  one unit to the right.
\<close>

definition twelve_groups :: NetworkData where
  "twelve_groups =
     \<lparr>nodes = map (\<lambda>g. \<lparr>node_id = ''n'', node_group = g\<rparr>) [7, 3, 7, 1, 2, 4, 5, 6, 8, 9, 3, 10, 11, 12],
      links = []\<rparr>"

definition chart :: NetworkGraph where
  "chart = mount (free_tick (1 / 50)) (\<lambda>n. 1 / 2) (Response True (Payload example_payload))"

definition zoomed :: NetworkGraph where
  "zoomed = click ZoomIn (click ZoomIn chart)"

definition failed :: NetworkGraph where
  "failed = initial\<lparr>error := Some ''Error loading network graph data'', isLoading := False, fetches := 1\<rparr>"

definition moving :: Simulation where
  "moving = forceSimulation (map (\<lambda>d. d\<lparr>vx := 5, vy := - 3\<rparr>) (seeded example_payload))"

definition drift :: "Simulation \<Rightarrow> Simulation" where
  "drift sim = sim\<lparr>sim_nodes := map (\<lambda>d. d\<lparr>xpos := xpos d + 1\<rparr>) (sim_nodes sim)\<rparr>"


section \<open>Validation keeps exactly the links between known nodes\<close>

lemma invalidLinks_empty_iff:
  "invalidLinks d = [] \<longleftrightarrow>
     (\<forall>l \<in> set (links d). source l \<in> nodeIds d \<and> target l \<in> nodeIds d)"
  by (auto simp: invalidLinks_def filter_empty_conv)

lemma links_validateLinks:
  "links (fst (validateLinks d)) =
     filter (\<lambda>l. source l \<in> nodeIds d \<and> target l \<in> nodeIds d) (links d)"
proof (cases "invalidLinks d = []")
  case True
  then have "\<forall>l \<in> set (links d). source l \<in> nodeIds d \<and> target l \<in> nodeIds d"
    by (simp add: invalidLinks_empty_iff)
  then have "filter (\<lambda>l. source l \<in> nodeIds d \<and> target l \<in> nodeIds d) (links d) = links d"
    by (simp add: filter_id_conv)
  with True show ?thesis by (simp add: validateLinks_def)
next
  case False
  then show ?thesis by (simp add: validateLinks_def)
qed

lemma nodes_validateLinks: "nodes (fst (validateLinks d)) = nodes d"
  by (simp add: validateLinks_def)

lemma length_invalidLinks:
  "length (links (fst (validateLinks d))) + length (invalidLinks d) = length (links d)"
proof -
  have "invalidLinks d =
      filter (\<lambda>l. \<not> (source l \<in> nodeIds d \<and> target l \<in> nodeIds d)) (links d)"
    by (simp add: invalidLinks_def)
  then show ?thesis
    using sum_length_filter_compl [of "\<lambda>l. source l \<in> nodeIds d \<and> target l \<in> nodeIds d" "links d"]
    by (simp add: links_validateLinks)
qed


section \<open>Simulation links carry the ids of the validated links\<close>


lemma map_node_id_simulationNodes:
  "map node_id (simulationNodes dims random n ns) = map node_id ns"
  by (induction ns arbitrary: n) simp_all

lemma nodeMap_from_absent:
  "k \<notin> node_id ` set ns \<Longrightarrow> nodeMap_from i ns m k = m k"
  by (induction ns arbitrary: i m) auto

lemma nodeMap_from_present:
  "k \<in> node_id ` set ns \<Longrightarrow>
     \<exists>j < length ns. nodeMap_from i ns m k = Some (i + j) \<and> node_id (ns ! j) = k"
proof (induction ns arbitrary: i m)
  case Nil
  then show ?case by simp
next
  case (Cons a ns)
  show ?case
  proof (cases "k \<in> node_id ` set ns")
    case True
    from Cons.IH [OF True, of "i + 1" "m(node_id a \<mapsto> i)"]
    obtain j where "j < length ns"
      "nodeMap_from (i + 1) ns (m(node_id a \<mapsto> i)) k = Some (i + 1 + j)" "node_id (ns ! j) = k"
      by blast
    then have "Suc j < length (a # ns) \<and> nodeMap_from i (a # ns) m k = Some (i + Suc j)
        \<and> node_id ((a # ns) ! Suc j) = k"
      by simp
    then show ?thesis by blast
  next
    case False
    with Cons.prems have ka: "node_id a = k" by auto
    from False have "nodeMap_from (i + 1) ns (m(node_id a \<mapsto> i)) k = (m(node_id a \<mapsto> i)) k"
      by (rule nodeMap_from_absent)
    with ka have "0 < length (a # ns) \<and> nodeMap_from i (a # ns) m k = Some (i + 0)
        \<and> node_id ((a # ns) ! 0) = k"
      by simp
    then show ?thesis by blast
  qed
qed

lemma nodeMap_None: "k \<notin> node_id ` set ns \<Longrightarrow> nodeMap ns k = None"
  by (simp add: nodeMap_def nodeMap_from_absent)

lemma nodeMap_Some:
  "k \<in> node_id ` set ns \<Longrightarrow> \<exists>j < length ns. nodeMap ns k = Some j \<and> node_id (ns ! j) = k"
  using nodeMap_from_present [of k ns 0 Map.empty] by (simp add: nodeMap_def)

lemma simulationLink_invalid:
  "\<not> (source l \<in> node_id ` set ns \<and> target l \<in> node_id ` set ns) \<Longrightarrow>
     simulationLink (nodeMap ns) l = None"
  by (auto simp: simulationLink_def nodeMap_None split: option.splits)

lemma simulationLink_valid:
  assumes "source l \<in> node_id ` set ns" "target l \<in> node_id ` set ns"
    and ids: "map node_id simNodes = map node_id ns"
  shows "\<exists>sl. simulationLink (nodeMap ns) l = Some sl \<and> sourceId simNodes sl = source l
     \<and> targetId simNodes sl = target l \<and> sl_value sl = link_value l"
proof -
  from nodeMap_Some [OF assms(1)] obtain i where
    i: "i < length ns" "nodeMap ns (source l) = Some i" "node_id (ns ! i) = source l" by blast
  from nodeMap_Some [OF assms(2)] obtain j where
    j: "j < length ns" "nodeMap ns (target l) = Some j" "node_id (ns ! j) = target l" by blast
  from ids have len: "length simNodes = length ns" by (rule map_eq_imp_length_eq)
  from ids i(1) len have "node_id (simNodes ! i) = node_id (ns ! i)"
    by (metis nth_map)
  moreover from ids j(1) len have "node_id (simNodes ! j) = node_id (ns ! j)"
    by (metis nth_map)
  ultimately show ?thesis
    using i j by (simp add: simulationLink_def sourceId_def targetId_def)
qed

lemma map_filter_simulationLink:
  assumes ids: "map node_id simNodes = map node_id ns"
  shows "map (\<lambda>sl. (sourceId simNodes sl, targetId simNodes sl, sl_value sl))
           (List.map_filter (simulationLink (nodeMap ns)) ls)
         = map (\<lambda>l. (source l, target l, link_value l))
             (filter (\<lambda>l. source l \<in> node_id ` set ns \<and> target l \<in> node_id ` set ns) ls)"
proof (induction ls)
  case Nil
  show ?case by (simp add: List.map_filter_simps)
next
  case (Cons l ls)
  show ?case
  proof (cases "source l \<in> node_id ` set ns \<and> target l \<in> node_id ` set ns")
    case True
    with simulationLink_valid [OF _ _ ids, of l] obtain sl where
      "simulationLink (nodeMap ns) l = Some sl" "sourceId simNodes sl = source l"
      "targetId simNodes sl = target l" "sl_value sl = link_value l" by blast
    with True Cons.IH show ?thesis by (simp add: List.map_filter_simps)
  next
    case False
    then have "simulationLink (nodeMap ns) l = None" by (rule simulationLink_invalid)
    with False Cons.IH show ?thesis by (simp add: List.map_filter_simps)
  qed
qed


lemma simulationLinks_validated:
  assumes ids: "map node_id simNodes = map node_id (nodes raw)"
  shows "map (\<lambda>sl. (sourceId simNodes sl, targetId simNodes sl, sl_value sl))
           (simulationLinks (fst (validateLinks raw)))
         = map (\<lambda>l. (source l, target l, link_value l)) (links (fst (validateLinks raw)))"
proof -
  let ?ok = "\<lambda>l. source l \<in> node_id ` set (nodes raw) \<and> target l \<in> node_id ` set (nodes raw)"
  have l: "links (fst (validateLinks raw)) = filter ?ok (links raw)"
    by (simp add: links_validateLinks nodeIds_def)
  have "map (\<lambda>sl. (sourceId simNodes sl, targetId simNodes sl, sl_value sl))
           (simulationLinks (fst (validateLinks raw)))
        = map (\<lambda>l. (source l, target l, link_value l)) (filter ?ok (filter ?ok (links raw)))"
    unfolding simulationLinks_def nodes_validateLinks l
    by (rule map_filter_simulationLink [OF ids])
  then show ?thesis by (simp add: l)
qed

lemma fold_connect_link:
  "fold (connect_link simNodes d) sls S =
     S \<union> {x. \<exists>sl \<in> set sls. (sourceId simNodes sl = node_id d \<or> targetId simNodes sl = node_id d)
                \<and> (x = sourceId simNodes sl \<or> x = targetId simNodes sl)}"
proof (induction sls arbitrary: S)
  case Nil
  show ?case by simp
next
  case (Cons sl sls)
  show ?case
    unfolding fold_Cons o_apply Cons.IH
    by (auto simp: connect_link_def)
qed

lemma connectedNodeIds_pairs:
  "connectedNodeIds simNodes sls d =
     {node_id d}
     \<union> {t. (node_id d, t) \<in> set (map (\<lambda>sl. (sourceId simNodes sl, targetId simNodes sl)) sls)}
     \<union> {s. (s, node_id d) \<in> set (map (\<lambda>sl. (sourceId simNodes sl, targetId simNodes sl)) sls)}"
  unfolding connectedNodeIds_def fold_connect_link set_map
  by (rule set_eqI) (simp only: image_iff Un_iff mem_Collect_eq singleton_iff prod.inject Bex_def, metis)

lemma pairs_validated:
  assumes ids: "map node_id simNodes = map node_id (nodes raw)"
  shows "map (\<lambda>sl. (sourceId simNodes sl, targetId simNodes sl))
           (simulationLinks (fst (validateLinks raw)))
         = map (\<lambda>l. (source l, target l)) (links (fst (validateLinks raw)))"
proof -
  have "map (\<lambda>p. (fst p, fst (snd p))) (map (\<lambda>sl. (sourceId simNodes sl, targetId simNodes sl, sl_value sl))
           (simulationLinks (fst (validateLinks raw))))
      = map (\<lambda>p. (fst p, fst (snd p))) (map (\<lambda>l. (source l, target l, link_value l)) (links (fst (validateLinks raw))))"
    by (simp only: simulationLinks_validated [OF ids])
  then show ?thesis by (simp add: o_def)
qed

lemma connectedNodeIds_validated:
  assumes ids: "map node_id simNodes = map node_id (nodes raw)"
  shows "connectedNodeIds simNodes (simulationLinks (fst (validateLinks raw))) d =
     {node_id d}
     \<union> {target l |l. l \<in> set (links (fst (validateLinks raw))) \<and> source l = node_id d}
     \<union> {source l |l. l \<in> set (links (fst (validateLinks raw))) \<and> target l = node_id d}"
  unfolding connectedNodeIds_pairs pairs_validated [OF ids] set_map
  by (rule set_eqI) force

lemma get_or0_upd: "get_or0 (m(a \<mapsto> v)) k = (if k = a then v else get_or0 m k)"
  by (simp add: get_or0_def)

lemma get_or0_count_link:
  "get_or0 (count_link simNodes sl m) k =
     get_or0 m k + (if sourceId simNodes sl = k then 1 else 0)
                 + (if targetId simNodes sl = k then 1 else 0)"
  by (simp add: count_link_def Let_def get_or0_upd)

lemma get_or0_fold_count_link:
  "get_or0 (fold (count_link simNodes) sls m) k =
     get_or0 m k + length (filter (\<lambda>sl. sourceId simNodes sl = k) sls)
                 + length (filter (\<lambda>sl. targetId simNodes sl = k) sls)"
proof (induction sls arbitrary: m)
  case Nil
  show ?case by simp
next
  case (Cons sl sls)
  show ?case
    unfolding fold_Cons o_apply Cons.IH get_or0_count_link
    by simp
qed

lemma count_by_pairs:
  "length (filter (\<lambda>sl. sourceId simNodes sl = k) sls)
     = length (filter (\<lambda>p. fst p = k) (map (\<lambda>sl. (sourceId simNodes sl, targetId simNodes sl)) sls))"
  "length (filter (\<lambda>sl. targetId simNodes sl = k) sls)
     = length (filter (\<lambda>p. snd p = k) (map (\<lambda>sl. (sourceId simNodes sl, targetId simNodes sl)) sls))"
  by (simp_all add: filter_map o_def)

lemma connections_validated:
  assumes ids: "map node_id simNodes = map node_id (nodes raw)"
  shows "get_or0 (nodeConnectionCounts simNodes (simulationLinks (fst (validateLinks raw)))) k =
     length (filter (\<lambda>l. source l = k) (links (fst (validateLinks raw))))
   + length (filter (\<lambda>l. target l = k) (links (fst (validateLinks raw))))"
  unfolding nodeConnectionCounts_def get_or0_fold_count_link count_by_pairs pairs_validated [OF ids]
  by (simp add: filter_map o_def get_or0_def)


section \<open>Insertion-ordered sets and the ordinal scale\<close>

lemma new_Set_snoc: "new_Set (vs @ [v]) = Set_add (new_Set vs) v"
  by (simp add: new_Set_def)

lemma new_Set_Nil: "new_Set [] = []"
  by (simp add: new_Set_def)

lemma set_new_Set: "set (new_Set vs) = set vs"
proof (induction vs rule: rev_induct)
  case Nil
  show ?case by (simp add: new_Set_Nil)
next
  case (snoc v vs)
  then show ?case by (auto simp: new_Set_snoc Set_add_def)
qed

lemma distinct_new_Set: "distinct (new_Set vs)"
proof (induction vs rule: rev_induct)
  case Nil
  show ?case by (simp add: new_Set_Nil)
next
  case (snoc v vs)
  then show ?case by (simp add: new_Set_snoc Set_add_def)
qed

lemma new_Set_distinct: "distinct vs \<Longrightarrow> new_Set vs = vs"
proof (induction vs rule: rev_induct)
  case Nil
  show ?case by (simp add: new_Set_Nil)
next
  case (snoc v vs)
  then show ?case by (simp add: new_Set_snoc Set_add_def set_new_Set)
qed

lemma first_seen_snoc:
  "first_seen (vs @ [v]) = first_seen vs @ (if v \<in> set vs then [] else [v])"
proof -
  let ?ws = "vs @ [v]"
  have u: "[0..<length ?ws] = [0..<length vs] @ [length vs]" by simp
  have f: "filter (\<lambda>i. ?ws ! i \<notin> set (take i ?ws)) [0..<length vs]
         = filter (\<lambda>i. vs ! i \<notin> set (take i vs)) [0..<length vs]"
    by (rule filter_cong) (simp_all add: nth_append)
  have m: "map (\<lambda>i. ?ws ! i) (filter (\<lambda>i. vs ! i \<notin> set (take i vs)) [0..<length vs])
         = map (\<lambda>i. vs ! i) (filter (\<lambda>i. vs ! i \<notin> set (take i vs)) [0..<length vs])"
    by (rule map_cong) (simp_all add: nth_append)
  have l: "map (\<lambda>i. ?ws ! i) (filter (\<lambda>i. ?ws ! i \<notin> set (take i ?ws)) [length vs])
         = (if v \<in> set vs then [] else [v])"
    by simp
  have "first_seen ?ws
      = map (\<lambda>i. ?ws ! i) (filter (\<lambda>i. ?ws ! i \<notin> set (take i ?ws)) [0..<length vs])
        @ map (\<lambda>i. ?ws ! i) (filter (\<lambda>i. ?ws ! i \<notin> set (take i ?ws)) [length vs])"
    unfolding first_seen_def u filter_append map_append ..
  also have "\<dots> = first_seen vs @ (if v \<in> set vs then [] else [v])"
    unfolding f m l first_seen_def ..
  finally show ?thesis .
qed

lemma new_Set_first_seen: "new_Set vs = first_seen vs"
proof (induction vs rule: rev_induct)
  case Nil
  show ?case by (simp add: new_Set_def first_seen_def)
next
  case (snoc v vs)
  have "new_Set (vs @ [v]) = new_Set vs @ (if v \<in> set vs then [] else [v])"
    by (simp add: new_Set_snoc Set_add_def set_new_Set)
  with snoc show ?case by (simp only: first_seen_snoc)
qed

lemma index_of_nth: "distinct us \<Longrightarrow> i < length us \<Longrightarrow> index_of us (us ! i) = Some i"
proof (induction us arbitrary: i)
  case Nil
  then show ?case by simp
next
  case (Cons u us)
  show ?case
  proof (cases i)
    case 0
    then show ?thesis by simp
  next
    case (Suc j)
    with Cons.prems have "j < length us" "distinct us" "us ! j \<noteq> u" by auto
    with Cons.IH [of j] Suc show ?thesis by simp
  qed
qed

lemma length_schemeCategory10: "length schemeCategory10 = 10"
  by (simp add: schemeCategory10_def)

lemma distinct_schemeCategory10: "distinct schemeCategory10"
  by (simp add: schemeCategory10_def)

lemma scale_domain_colorScale: "scale_domain (colorScale ds) = groupIds ds"
  by (simp add: colorScale_def scaleOrdinal_def new_Set_distinct groupIds_def distinct_new_Set)

lemma scale_apply_colorScale:
  assumes "i < length (groupIds ds)"
  shows "scale_apply (colorScale ds) (groupIds ds ! i) = (schemeCategory10 ! (i mod 10), colorScale ds)"
proof -
  have "distinct (groupIds ds)" by (simp add: groupIds_def distinct_new_Set)
  with assms have "index_of (scale_domain (colorScale ds)) (groupIds ds ! i) = Some i"
    by (simp add: scale_domain_colorScale index_of_nth)
  moreover have "scale_range (colorScale ds) = schemeCategory10"
    by (simp add: colorScale_def scaleOrdinal_def)
  ultimately show ?thesis
    by (simp add: scale_apply_def length_schemeCategory10)
qed

lemma palette_differs: "a < 10 \<Longrightarrow> b < 10 \<Longrightarrow> a \<noteq> b \<Longrightarrow> schemeCategory10 ! a \<noteq> schemeCategory10 ! b"
  using distinct_schemeCategory10 length_schemeCategory10
  by (simp add: nth_eq_iff_index_eq)

lemma groupIds_twelve: "groupIds twelve_groups = [7, 3, 1, 2, 4, 5, 6, 8, 9, 10, 11, 12]"
  by (simp add: groupIds_def twelve_groups_def new_Set_def Set_add_def)

lemma groupIds_example: "groupIds example_payload = [1, 2]"
  by (simp add: groupIds_def example_payload_def new_Set_def Set_add_def)


section \<open>Zoom handlers\<close>

lemma in_extent_scaleTo: "in_extent (scale_k (scaleTo dims t k1))"
  by (simp add: scaleTo_def in_extent_def scaleExtent_def Let_def)

lemma scale_k_scaleTo: "in_extent k1 \<Longrightarrow> scale_k (scaleTo dims t k1) = k1"
  by (simp add: scaleTo_def in_extent_def scaleExtent_def Let_def)

lemma zoom_ok_transition_to: "in_extent (scale_k t) \<Longrightarrow> zoom_ok (transition_to t c)"
  by (simp add: zoom_ok_def transition_to_def handleZoom_def)

lemma zoom_ok_click: "zoom_ok c \<Longrightarrow> zoom_ok (click b c)"
proof (cases b)
  case ZoomIn
  assume "zoom_ok c"
  with ZoomIn show ?thesis
    by (simp add: handleZoomIn_def Let_def zoom_ok_transition_to in_extent_scaleTo)
next
  case ZoomOut
  assume "zoom_ok c"
  with ZoomOut show ?thesis
    by (simp add: handleZoomOut_def Let_def zoom_ok_transition_to in_extent_scaleTo)
next
  case ZoomReset
  assume "zoom_ok c"
  moreover have "in_extent (scale_k zoomIdentity)"
    by (simp add: zoomIdentity_def in_extent_def scaleExtent_def)
  ultimately show ?thesis using ZoomReset
    by (simp add: handleZoomReset_def zoom_ok_transition_to)
qed

lemma zoom_ok_clicks: "zoom_ok c \<Longrightarrow> zoom_ok (fold click bs c)"
  by (induction bs arbitrary: c) (simp_all add: zoom_ok_click)

lemma zoomLevel_handleZoomIn:
  "svgRef c \<Longrightarrow> zoomBehaviorRef c \<Longrightarrow> in_extent (zoomLevel c) \<Longrightarrow>
     zoomLevel (handleZoomIn c) = min (zoomLevel c + 0.2) 3"
proof -
  assume a: "svgRef c" "zoomBehaviorRef c" "in_extent (zoomLevel c)"
  then have "in_extent (min (zoomLevel c + 0.2) 3)"
    by (simp add: in_extent_def scaleExtent_def)
  with a show ?thesis
    by (simp add: handleZoomIn_def Let_def transition_to_def handleZoom_def scale_k_scaleTo)
qed

lemma zoomLevel_handleZoomOut:
  "svgRef c \<Longrightarrow> zoomBehaviorRef c \<Longrightarrow> in_extent (zoomLevel c) \<Longrightarrow>
     zoomLevel (handleZoomOut c) = max (zoomLevel c - 0.2) 0.5"
proof -
  assume a: "svgRef c" "zoomBehaviorRef c" "in_extent (zoomLevel c)"
  then have "in_extent (max (zoomLevel c - 0.2) 0.5)"
    by (simp add: in_extent_def scaleExtent_def)
  with a show ?thesis
    by (simp add: handleZoomOut_def Let_def transition_to_def handleZoom_def scale_k_scaleTo)
qed

lemma chart_fields:
  "svgRef chart" "zoomBehaviorRef chart" "zoomLevel chart = 1" "svg_zoom chart = zoomIdentity"
  "g_transform chart = zoomIdentity" "dimensions chart = \<lparr>width = 800, height = 600\<rparr>"
  by (simp_all add: chart_def mount_def visualize_def fetchData_def initial_def svgRef_def
      render_def handleResize_def)

lemma handleZoomReset_live:
  "svgRef c \<Longrightarrow> zoomBehaviorRef c \<Longrightarrow>
     handleZoomReset c = c\<lparr>zoomLevel := 1, svg_zoom := zoomIdentity, g_transform := zoomIdentity\<rparr>"
  by (simp add: handleZoomReset_def transition_to_def handleZoom_def zoomIdentity_def)

lemma refs_handleZoomReset:
  "svgRef (handleZoomReset c) = svgRef c" "zoomBehaviorRef (handleZoomReset c) = zoomBehaviorRef c"
  by (simp_all add: handleZoomReset_def transition_to_def handleZoom_def svgRef_def render_def)

lemma handleZoomReset_idem: "handleZoomReset (handleZoomReset c) = handleZoomReset c"
proof (cases "svgRef c \<and> zoomBehaviorRef c")
  case True
  then have "svgRef (handleZoomReset c)" "zoomBehaviorRef (handleZoomReset c)"
    by (simp_all add: refs_handleZoomReset)
  then have "handleZoomReset (handleZoomReset c) =
      (handleZoomReset c)\<lparr>zoomLevel := 1, svg_zoom := zoomIdentity, g_transform := zoomIdentity\<rparr>"
    by (rule handleZoomReset_live)
  with True show ?thesis by (simp add: handleZoomReset_live)
next
  case False
  then show ?thesis by (auto simp: handleZoomReset_def)
qed

lemma handleZoomReset_funpow: "(handleZoomReset ^^ Suc n) c = handleZoomReset c"
  by (induction n) (simp_all add: handleZoomReset_idem)

lemma refs_click: "svgRef (click b c) = svgRef c" "zoomBehaviorRef (click b c) = zoomBehaviorRef c"
  by (cases b; simp add: handleZoomReset_def handleZoomIn_def handleZoomOut_def Let_def
        transition_to_def handleZoom_def svgRef_def render_def)+

lemma refs_clicks:
  "svgRef (fold click bs c) = svgRef c \<and> zoomBehaviorRef (fold click bs c) = zoomBehaviorRef c"
  by (induction bs arbitrary: c) (simp_all add: refs_click)


section \<open>Pre-warm loop and paints\<close>

lemma prewarm_funpow: "prewarm tick i sim = (tick ^^ (50 - i)) sim"
proof (induction tick i sim rule: prewarm.induct)
  case (1 tick i sim)
  show ?case
  proof (cases "i < 50")
    case True
    then have "50 - i = Suc (50 - (i + 1))" by simp
    with True "1.IH" show ?thesis
      by (subst prewarm.simps) (simp add: funpow_swap1 del: prewarm.simps)
  next
    case False
    then show ?thesis by (subst prewarm.simps) simp
  qed
qed

lemma paints_createVisualization:
  "paints (createVisualization tick random n dims ds) =
     [updatePositions
        (sim_nodes ((tick ^^ 50) (forceSimulation (simulationNodes dims random n (nodes ds)))))
        (simulationLinks ds)]"
  by (simp add: createVisualization_def Let_def paint_def prewarm_funpow del: prewarm.simps)

lemma paints_timer_step: "\<exists>ps. paints (timer_step tick sc) = paints sc @ ps"
  by (simp add: timer_step_def Let_def paint_def)

lemma paints_timer_steps: "\<exists>ps. paints ((timer_step tick ^^ m) sc) = paints sc @ ps"
proof (induction m)
  case 0
  show ?case by simp
next
  case (Suc m)
  then obtain ps where "paints ((timer_step tick ^^ m) sc) = paints sc @ ps" by blast
  moreover obtain qs where
    "paints (timer_step tick ((timer_step tick ^^ m) sc)) = paints ((timer_step tick ^^ m) sc) @ qs"
    using paints_timer_step by blast
  ultimately show ?case by simp
qed

lemma drift_funpow:
  "sim_nodes ((drift ^^ n) sim) = map (\<lambda>d. d\<lparr>xpos := xpos d + real n\<rparr>) (sim_nodes sim)"
proof (induction n)
  case 0
  show ?case by simp
next
  case (Suc n)
  then show ?case by (simp add: drift_def o_def add.assoc)
qed


section \<open>Drag handlers and pinned nodes\<close>

lemma update_node_simps:
  "length (sim_nodes (update_node i f s)) = length (sim_nodes s)"
  "alphaTarget (update_node i f s) = alphaTarget s"
  "i < length (sim_nodes s) \<Longrightarrow> sim_nodes (update_node i f s) ! i = f (sim_nodes s ! i)"
  by (simp_all add: update_node_def)

lemma drag_start_subject:
  assumes "i < length (sim_nodes s)"
  shows "length (sim_nodes (drag_start a i s)) = length (sim_nodes s)"
    and "fx (sim_nodes (drag_start a i s) ! i) = Some (xpos (sim_nodes s ! i))"
    and "fy (sim_nodes (drag_start a i s) ! i) = Some (ypos (sim_nodes s ! i))"
    and "xpos (sim_nodes (drag_start a i s) ! i) = xpos (sim_nodes s ! i)"
    and "ypos (sim_nodes (drag_start a i s) ! i) = ypos (sim_nodes s ! i)"
  using assms by (simp_all add: drag_start_def update_node_def)

lemma drag_end_subject:
  assumes "i < length (sim_nodes s)"
  shows "fx (sim_nodes (drag_end a i s) ! i) = None"
    and "fy (sim_nodes (drag_end a i s) ! i) = None"
    and "xpos (sim_nodes (drag_end a i s) ! i) = xpos (sim_nodes s ! i)"
    and "ypos (sim_nodes (drag_end a i s) ! i) = ypos (sim_nodes s ! i)"
  using assms by (simp_all add: drag_end_def update_node_def)

lemma alphaTarget_drag:
  "alphaTarget (drag_start a i s) = (if a = 0 then 0.3 else alphaTarget s)"
  "alphaTarget (drag_end a i s) = (if a = 0 then 0 else alphaTarget s)"
  by (simp_all add: drag_start_def drag_end_def update_node_def)

lemma pinned_tick:
  assumes "respects_pins tick" "i < length (sim_nodes s)"
    and "fx (sim_nodes s ! i) = Some px" "fy (sim_nodes s ! i) = Some py"
  shows "length (sim_nodes (tick s)) = length (sim_nodes s)
     \<and> fx (sim_nodes (tick s) ! i) = Some px \<and> fy (sim_nodes (tick s) ! i) = Some py
     \<and> xpos (sim_nodes (tick s) ! i) = px \<and> ypos (sim_nodes (tick s) ! i) = py"
proof -
  from assms(1) have r: "length (sim_nodes (tick s)) = length (sim_nodes s) \<and>
        (\<forall>i < length (sim_nodes s).
           fx (sim_nodes (tick s) ! i) = fx (sim_nodes s ! i) \<and>
           fy (sim_nodes (tick s) ! i) = fy (sim_nodes s ! i) \<and>
           (fx (sim_nodes s ! i) \<noteq> None \<longrightarrow>
              Some (xpos (sim_nodes (tick s) ! i)) = fx (sim_nodes s ! i)) \<and>
           (fy (sim_nodes s ! i) \<noteq> None \<longrightarrow>
              Some (ypos (sim_nodes (tick s) ! i)) = fy (sim_nodes s ! i)))"
    unfolding respects_pins_def by (rule spec)
  with assms(2) have "fx (sim_nodes (tick s) ! i) = fx (sim_nodes s ! i) \<and>
           fy (sim_nodes (tick s) ! i) = fy (sim_nodes s ! i) \<and>
           (fx (sim_nodes s ! i) \<noteq> None \<longrightarrow>
              Some (xpos (sim_nodes (tick s) ! i)) = fx (sim_nodes s ! i)) \<and>
           (fy (sim_nodes s ! i) \<noteq> None \<longrightarrow>
              Some (ypos (sim_nodes (tick s) ! i)) = fy (sim_nodes s ! i))"
    by blast
  with r assms(3,4) show ?thesis by simp
qed

lemma pinned_ticks:
  assumes "respects_pins tick" "i < length (sim_nodes s)"
    and "fx (sim_nodes s ! i) = Some px" "fy (sim_nodes s ! i) = Some py"
    and "xpos (sim_nodes s ! i) = px" "ypos (sim_nodes s ! i) = py"
  shows "length (sim_nodes ((tick ^^ j) s)) = length (sim_nodes s)
     \<and> fx (sim_nodes ((tick ^^ j) s) ! i) = Some px \<and> fy (sim_nodes ((tick ^^ j) s) ! i) = Some py
     \<and> xpos (sim_nodes ((tick ^^ j) s) ! i) = px \<and> ypos (sim_nodes ((tick ^^ j) s) ! i) = py"
proof (induction j)
  case 0
  from assms show ?case by simp
next
  case (Suc j)
  then have "i < length (sim_nodes ((tick ^^ j) s))"
    "fx (sim_nodes ((tick ^^ j) s) ! i) = Some px" "fy (sim_nodes ((tick ^^ j) s) ! i) = Some py"
    using assms(2) by simp_all
  from pinned_tick [OF assms(1) this] Suc show ?case by simp
qed

lemma respects_pins_free_tick: "respects_pins (free_tick decay)"
  unfolding respects_pins_def
  by (auto simp: free_tick_def integrate_def Let_def split: option.splits)


section \<open>Failed loads and reachable states\<close>

lemma fetchData_fails:
  "load_fails r \<Longrightarrow>
     fetchData r c = load_failed (c\<lparr>isLoading := True, fetches := fetches c + 1\<rparr>)"
proof (cases r)
  case NoResponse
  then show ?thesis by (simp add: fetchData_def)
next
  case (Response ok b)
  assume "load_fails r"
  with Response show ?thesis
    by (cases b) (auto simp: fetchData_def Let_def)
qed

lemma mount_fails:
  "load_fails r \<Longrightarrow>
     mount tick random r =
       initial\<lparr>error := Some ''Error loading network graph data'', isLoading := False, fetches := 1\<rparr>"
  by (simp add: mount_def fetchData_fails load_failed_def visualize_def initial_def handleResize_def)

lemma step_failed: "step tick random ev failed = failed"
proof (cases ev)
  case (WindowResize w)
  then show ?thesis by (simp add: failed_def containerRef_def render_def initial_def)
next
  case (Click b)
  then show ?thesis
    by (cases b) (simp_all add: failed_def handleZoomIn_def handleZoomOut_def handleZoomReset_def
        svgRef_def render_def initial_def)
next
  case TimerFires
  then show ?thesis by (simp add: failed_def initial_def)
qed

lemma run_failed: "run tick random events failed = failed"
  unfolding run_def by (induction events) (simp_all add: step_failed)

lemma visualize_chart:
  "render c = ChartView \<Longrightarrow> data c \<noteq> None \<Longrightarrow> zoomBehaviorRef (visualize tick random c)"
  by (auto simp: visualize_def svgRef_def render_def split: option.splits if_splits)

lemma data_visualize: "data (visualize tick random c) = data c"
  by (simp add: visualize_def split: option.splits)

lemma chart_ready_mount: "chart_ready (mount tick random r)"
proof (cases "load_fails r")
  case True
  then show ?thesis by (simp add: mount_fails chart_ready_def render_def initial_def)
next
  case False
  have "\<exists>raw. r = Response True (Payload raw)"
  proof (cases r)
    case NoResponse
    with False show ?thesis by simp
  next
    case (Response ok b)
    with False show ?thesis by (cases b) simp_all
  qed
  then obtain raw where r: "r = Response True (Payload raw)" ..
  let ?c = "fetchData r (initial\<lparr>dimensions := handleResize None (dimensions initial)\<rparr>)"
  have "render ?c = ChartView" "data ?c \<noteq> None"
    by (simp_all add: r fetchData_def render_def initial_def)
  then show ?thesis
    by (simp add: mount_def chart_ready_def visualize_chart data_visualize)
qed

lemma chart_ready_step: "chart_ready c \<Longrightarrow> chart_ready (step tick random ev c)"
proof (cases ev)
  case (WindowResize w)
  assume c: "chart_ready c"
  show ?thesis
  proof (cases "containerRef c")
    case True
    let ?d = "c\<lparr>dimensions := handleResize (Some w) (dimensions c)\<rparr>"
    from True c have "render ?d = ChartView" "data ?d \<noteq> None"
      by (auto simp: containerRef_def chart_ready_def render_def split: if_splits)
    with True WindowResize show ?thesis
      by (simp add: chart_ready_def visualize_chart data_visualize)
  next
    case False
    with WindowResize c show ?thesis by simp
  qed
next
  case (Click b)
  assume "chart_ready c"
  moreover have "data (click b c) = data c"
    by (cases b) (simp_all add: handleZoomIn_def handleZoomOut_def handleZoomReset_def Let_def
        transition_to_def handleZoom_def)
  moreover have "render (click b c) = render c"
    by (cases b) (simp_all add: handleZoomIn_def handleZoomOut_def handleZoomReset_def Let_def
        transition_to_def handleZoom_def render_def)
  ultimately show ?thesis using Click refs_click(2) [of b c]
    by (simp add: chart_ready_def)
next
  case TimerFires
  assume "chart_ready c"
  with TimerFires show ?thesis by (simp add: chart_ready_def render_def)
qed

lemma chart_ready_run: "chart_ready c \<Longrightarrow> chart_ready (run tick random events c)"
  unfolding run_def by (induction events arbitrary: c) (simp_all add: chart_ready_step)

lemma chart_view_refs:
  assumes "render (run tick random events (mount tick random r)) = ChartView"
  shows "svgRef (run tick random events (mount tick random r))
     \<and> zoomBehaviorRef (run tick random events (mount tick random r))"
  using assms chart_ready_run [OF chart_ready_mount, of tick random events tick random r]
  by (simp add: chart_ready_def svgRef_def)


section \<open>C1: the links used for layout\<close>

text \<open>
  Claim C1.  For every raw payload, the dataset stored by a successful fetch keeps the
  nodes and keeps exactly the raw links whose source and target are both ids of nodes,
  in their order; the simulation links built from it by the layout adapter have the
  same end points and values; and the number of links dropped is the number of raw
  links with a source or a target that is no node id.
\<close>

theorem validated_links_exact:
  "data (fetchData (Response True (Payload raw)) c) = Some (fst (validateLinks raw))
   \<and> nodes (fst (validateLinks raw)) = nodes raw
   \<and> links (fst (validateLinks raw)) =
       filter (\<lambda>l. source l \<in> node_id ` set (nodes raw) \<and> target l \<in> node_id ` set (nodes raw))
         (links raw)
   \<and> map (\<lambda>sl. (sourceId (simulationNodes dims random n (nodes raw)) sl,
                  targetId (simulationNodes dims random n (nodes raw)) sl, sl_value sl))
         (simulationLinks (fst (validateLinks raw)))
       = map (\<lambda>l. (source l, target l, link_value l))
           (filter (\<lambda>l. source l \<in> node_id ` set (nodes raw) \<and> target l \<in> node_id ` set (nodes raw))
              (links raw))
   \<and> length (links raw) - length (links (fst (validateLinks raw)))
       = length (filter (\<lambda>l. source l \<notin> node_id ` set (nodes raw) \<or> target l \<notin> node_id ` set (nodes raw))
           (links raw))"
proof -
  let ?v = "fst (validateLinks raw)"
  let ?ok = "\<lambda>l. source l \<in> node_id ` set (nodes raw) \<and> target l \<in> node_id ` set (nodes raw)"
  have a: "data (fetchData (Response True (Payload raw)) c) = Some ?v"
    by (simp add: fetchData_def)
  have b: "nodes ?v = nodes raw" by (rule nodes_validateLinks)
  have c: "links ?v = filter ?ok (links raw)"
    by (simp add: links_validateLinks nodeIds_def)
  have d: "map (\<lambda>sl. (sourceId (simulationNodes dims random n (nodes raw)) sl,
                  targetId (simulationNodes dims random n (nodes raw)) sl, sl_value sl))
         (simulationLinks ?v) = map (\<lambda>l. (source l, target l, link_value l)) (filter ?ok (links raw))"
    using simulationLinks_validated [OF map_node_id_simulationNodes, of dims random n raw]
    by (simp only: c)
  have "invalidLinks raw = filter (\<lambda>l. source l \<notin> node_id ` set (nodes raw) \<or> target l \<notin> node_id ` set (nodes raw)) (links raw)"
    by (simp add: invalidLinks_def nodeIds_def)
  with length_invalidLinks [of raw]
  have e: "length (links raw) - length (links ?v)
       = length (filter (\<lambda>l. source l \<notin> node_id ` set (nodes raw) \<or> target l \<notin> node_id ` set (nodes raw))
           (links raw))"
    by simp
  from a b c d e show ?thesis by (intro conjI)
qed

text \<open>The example of the specification: three nodes, the link to \<^verbatim>\<open>missing\<close> is dropped.\<close>

theorem validated_links_exact_witness:
  "links (fst (validateLinks example_payload)) = [\<lparr>source = ''a'', target = ''b'', link_value = 4\<rparr>]
   \<and> length (nodes (fst (validateLinks example_payload))) = 3
   \<and> length (links example_payload) - length (links (fst (validateLinks example_payload))) = 1
   \<and> map (\<lambda>sl. (sourceId (simulationNodes \<lparr>width = 800, height = 600\<rparr> (\<lambda>n. 1 / 2) 0 (nodes example_payload)) sl,
                  targetId (simulationNodes \<lparr>width = 800, height = 600\<rparr> (\<lambda>n. 1 / 2) 0 (nodes example_payload)) sl, sl_value sl))
         (simulationLinks (fst (validateLinks example_payload))) = [(''a'', ''b'', 4)]"
  using validated_links_exact [of example_payload initial "\<lparr>width = 800, height = 600\<rparr>" "\<lambda>n. 1 / 2" 0]
  by (simp add: example_payload_def)


section \<open>C2: the zoom buttons keep the scale factor inside the extent\<close>

text \<open>
  Claim C2.  If the zoom level, the scale of the transform stored on the \<^verbatim>\<open>svg\<close> and the
  scale of the zoom container's transform all lie in \<open>[0.5, 3]\<close>, they still do after any
  sequence of clicks on zoom-in, zoom-out and reset.  With the refs in place a click on
  zoom-in gives \<open>min (zoomLevel + 0.2) 3\<close>, a click on zoom-out \<open>max (zoomLevel - 0.2) 0.5\<close>
  and a click on reset \<open>1\<close>.  The bounds \<open>0.5\<close> and \<open>3\<close> are floating-point numbers and
  \<open>min\<close>, \<open>max\<close> return one of their arguments, so the bounds do not depend on how the
  sum is rounded.
\<close>

theorem zoom_buttons_stay_in_extent:
  assumes "in_extent (zoomLevel c)" "in_extent (scale_k (svg_zoom c))"
    "in_extent (scale_k (g_transform c))"
  shows "in_extent (zoomLevel (fold click bs c))
     \<and> in_extent (scale_k (svg_zoom (fold click bs c)))
     \<and> in_extent (scale_k (g_transform (fold click bs c)))
     \<and> (svgRef c \<and> zoomBehaviorRef c \<longrightarrow>
          zoomLevel (click ZoomIn c) = min (zoomLevel c + 0.2) 3
          \<and> zoomLevel (click ZoomOut c) = max (zoomLevel c - 0.2) 0.5
          \<and> zoomLevel (click ZoomReset c) = 1)"
proof -
  from assms have "zoom_ok c" by (simp add: zoom_ok_def)
  then have "zoom_ok (fold click bs c)" by (rule zoom_ok_clicks)
  moreover have "zoomLevel (handleZoomReset c) = 1" if "svgRef c" "zoomBehaviorRef c"
    using that by (simp add: handleZoomReset_def transition_to_def handleZoom_def zoomIdentity_def)
  ultimately show ?thesis
    using assms(1) by (simp add: zoom_ok_def zoomLevel_handleZoomIn zoomLevel_handleZoomOut)
qed

text \<open>
  From the freshly loaded chart: four clicks on zoom-out, a reset and a click on zoom-in
  stay in the extent; one click on zoom-in gives \<open>1.2\<close>, one on zoom-out \<open>0.8\<close>.
\<close>

theorem zoom_buttons_stay_in_extent_witness:
  "in_extent (zoomLevel chart) \<and> in_extent (scale_k (svg_zoom chart))
   \<and> in_extent (scale_k (g_transform chart))
   \<and> in_extent (zoomLevel (fold click [ZoomOut, ZoomOut, ZoomOut, ZoomOut, ZoomReset, ZoomIn] chart))
   \<and> zoomLevel (click ZoomIn chart) = 6 / 5
   \<and> zoomLevel (click ZoomOut chart) = 4 / 5"
proof -
  have h: "in_extent (zoomLevel chart)" "in_extent (scale_k (svg_zoom chart))"
    "in_extent (scale_k (g_transform chart))"
    by (simp_all add: chart_fields zoomIdentity_def in_extent_def scaleExtent_def)
  from zoom_buttons_stay_in_extent [OF h, of "[ZoomOut, ZoomOut, ZoomOut, ZoomOut, ZoomReset, ZoomIn]"]
  show ?thesis using h by (simp add: chart_fields)
qed


section \<open>C3: the highlight set of a hovered node\<close>

text \<open>
  Claim C3.  Whenever the simulation nodes carry the ids of the dataset's nodes, hovering
  a node \<open>d\<close> yields as \<^verbatim>\<open>connectedNodeIds\<close> the id of \<open>d\<close> together with the other end of
  every validated link that has \<open>d\<close> at one end; if no validated link touches \<open>d\<close> the set
  is just the id of \<open>d\<close>.
\<close>

theorem hover_highlights_neighbourhood:
  assumes "map node_id simNodes = map node_id (nodes raw)"
  shows "connectedNodeIds simNodes (simulationLinks (fst (validateLinks raw))) d =
       {node_id d}
       \<union> set (map target (filter (\<lambda>l. source l = node_id d) (links (fst (validateLinks raw)))))
       \<union> set (map source (filter (\<lambda>l. target l = node_id d) (links (fst (validateLinks raw)))))
     \<and> ((\<forall>l \<in> set (links (fst (validateLinks raw))). source l \<noteq> node_id d \<and> target l \<noteq> node_id d)
          \<longrightarrow> connectedNodeIds simNodes (simulationLinks (fst (validateLinks raw))) d = {node_id d})"
proof (intro impI conjI)
  show "connectedNodeIds simNodes (simulationLinks (fst (validateLinks raw))) d =
       {node_id d}
       \<union> set (map target (filter (\<lambda>l. source l = node_id d) (links (fst (validateLinks raw)))))
       \<union> set (map source (filter (\<lambda>l. target l = node_id d) (links (fst (validateLinks raw)))))"
    unfolding connectedNodeIds_validated [OF assms] by force
  assume "\<forall>l \<in> set (links (fst (validateLinks raw))). source l \<noteq> node_id d \<and> target l \<noteq> node_id d"
  then show "connectedNodeIds simNodes (simulationLinks (fst (validateLinks raw))) d = {node_id d}"
    unfolding connectedNodeIds_validated [OF assms] by blast
qed

text \<open>
  With links A--B and C--A and none between B and C: hovering A gives A, B and C,
  hovering the isolated D gives D alone, hovering B gives A and B.
\<close>

theorem hover_highlights_neighbourhood_witness:
  "connectedNodeIds (seeded star_payload) (simulationLinks (fst (validateLinks star_payload)))
      (seeded star_payload ! 0) = {''A'', ''B'', ''C''}
   \<and> connectedNodeIds (seeded star_payload) (simulationLinks (fst (validateLinks star_payload)))
      (seeded star_payload ! 3) = {''D''}
   \<and> connectedNodeIds (seeded star_payload) (simulationLinks (fst (validateLinks star_payload)))
      (seeded star_payload ! 1) = {''A'', ''B''}"
proof -
  have ids: "map node_id (seeded star_payload) = map node_id (nodes star_payload)"
    by (simp add: seeded_def map_node_id_simulationNodes)
  have l: "links (fst (validateLinks star_payload)) = links star_payload"
    by (simp add: links_validateLinks nodeIds_def star_payload_def)
  have n: "node_id (seeded star_payload ! 0) = ''A''" "node_id (seeded star_payload ! 1) = ''B''"
    "node_id (seeded star_payload ! 3) = ''D''"
    by (simp_all add: seeded_def star_payload_def)
  have r: "{''A''} \<union> set (map target (filter (\<lambda>l. source l = ''A'') (links star_payload)))
       \<union> set (map source (filter (\<lambda>l. target l = ''A'') (links star_payload))) = {''A'', ''B'', ''C''}"
    "{''B''} \<union> set (map target (filter (\<lambda>l. source l = ''B'') (links star_payload)))
       \<union> set (map source (filter (\<lambda>l. target l = ''B'') (links star_payload))) = {''A'', ''B''}"
    "{''D''} \<union> set (map target (filter (\<lambda>l. source l = ''D'') (links star_payload)))
       \<union> set (map source (filter (\<lambda>l. target l = ''D'') (links star_payload))) = {''D''}"
    by (auto simp: star_payload_def)
  have iso: "\<forall>l \<in> set (links (fst (validateLinks star_payload))).
      source l \<noteq> node_id (seeded star_payload ! 3) \<and> target l \<noteq> node_id (seeded star_payload ! 3)"
    unfolding l n by (simp add: star_payload_def)
  from hover_highlights_neighbourhood [OF ids, of "seeded star_payload ! 3"] iso
  have D: "connectedNodeIds (seeded star_payload) (simulationLinks (fst (validateLinks star_payload)))
      (seeded star_payload ! 3) = {''D''}"
    unfolding n by (elim conjE impE) assumption
  show ?thesis
    using hover_highlights_neighbourhood [OF ids, of "seeded star_payload ! 0"]
      hover_highlights_neighbourhood [OF ids, of "seeded star_payload ! 1"] D
    by (simp only: l n r simp_thms)
qed


section \<open>C4: zoom reset\<close>

text \<open>
  Claim C4.  Whenever the \<^verbatim>\<open>svg\<close> is mounted and the zoom behaviour is in its ref, which is
  the case whenever the reset button is on screen (lemma \<open>chart_view_refs\<close>),
  \<^verbatim>\<open>handleZoomReset\<close> sets the zoom level to \<open>1\<close> and both transforms to scale \<open>1\<close> and
  translation \<open>(0, 0)\<close>, whatever they were; doing it again, any number of times, changes
  nothing.
\<close>

theorem zoom_reset_identity:
  assumes "svgRef c" "zoomBehaviorRef c"
  shows "zoomLevel (handleZoomReset c) = 1
     \<and> svg_zoom (handleZoomReset c) = \<lparr>scale_k = 1, translate_x = 0, translate_y = 0\<rparr>
     \<and> g_transform (handleZoomReset c) = \<lparr>scale_k = 1, translate_x = 0, translate_y = 0\<rparr>
     \<and> handleZoomReset (handleZoomReset c) = handleZoomReset c
     \<and> (handleZoomReset ^^ Suc n) c = handleZoomReset c"
  using assms handleZoomReset_idem [of c] handleZoomReset_funpow [of n c]
  by (simp add: handleZoomReset_live zoomIdentity_def)

text \<open>
  After two clicks on zoom-in the zoom level is \<open>1.4\<close>; reset brings back the identity,
  and three resets equal one.
\<close>

theorem zoom_reset_identity_witness:
  "zoomLevel zoomed = 7 / 5
   \<and> zoomLevel (handleZoomReset zoomed) = 1
   \<and> svg_zoom (handleZoomReset zoomed) = \<lparr>scale_k = 1, translate_x = 0, translate_y = 0\<rparr>
   \<and> g_transform (handleZoomReset zoomed) = \<lparr>scale_k = 1, translate_x = 0, translate_y = 0\<rparr>
   \<and> handleZoomReset (handleZoomReset (handleZoomReset zoomed)) = handleZoomReset zoomed"
proof -
  have r1: "svgRef (click ZoomIn chart)" "zoomBehaviorRef (click ZoomIn chart)"
    by (simp_all only: refs_click chart_fields)
  have r: "svgRef zoomed" "zoomBehaviorRef zoomed"
    by (simp_all only: zoomed_def refs_click chart_fields)
  have z1: "zoomLevel (click ZoomIn chart) = 6 / 5"
    using zoomLevel_handleZoomIn [of chart]
    by (simp add: chart_fields in_extent_def scaleExtent_def)
  have z: "zoomLevel zoomed = 7 / 5"
    using zoomLevel_handleZoomIn [OF r1 [unfolded click.simps]] z1
    by (simp add: zoomed_def in_extent_def scaleExtent_def)
  from zoom_reset_identity [OF r, of 1] z show ?thesis
    by (simp add: numeral_2_eq_2)
qed


section \<open>C5: the colour assignment\<close>

text \<open>
  Claim C5.  The group identifiers are the distinct groups of the node array in
  first-seen order, and the colour scale depends on nothing but the sequence of groups.
  The group at position \<open>i\<close> of that list gets the palette entry \<open>i mod 10\<close>, and the scale
  is left as it was.  The palette has ten pairwise different entries, so two groups whose
  positions differ modulo ten get different colours, and with at most ten groups the
  assignment is injective.
\<close>

theorem color_assignment:
  "groupIds ds = first_seen (map node_group (nodes ds))
   \<and> (map node_group (nodes ds) = map node_group (nodes ds') \<longrightarrow> colorScale ds = colorScale ds')
   \<and> (\<forall>i < length (groupIds ds).
         scale_apply (colorScale ds) (groupIds ds ! i)
           = (schemeCategory10 ! (i mod 10), colorScale ds))
   \<and> (\<forall>i < length (groupIds ds). \<forall>j < length (groupIds ds). i mod 10 \<noteq> j mod 10 \<longrightarrow>
         fst (scale_apply (colorScale ds) (groupIds ds ! i))
           \<noteq> fst (scale_apply (colorScale ds) (groupIds ds ! j)))
   \<and> (length (groupIds ds) \<le> 10 \<longrightarrow>
         inj_on (\<lambda>g. fst (scale_apply (colorScale ds) g)) (set (groupIds ds)))
   \<and> length schemeCategory10 = 10 \<and> distinct schemeCategory10"
proof (intro conjI allI impI)
  show "groupIds ds = first_seen (map node_group (nodes ds))"
    by (simp add: groupIds_def new_Set_first_seen)
  show "colorScale ds = colorScale ds'" if "map node_group (nodes ds) = map node_group (nodes ds')"
    using that by (simp add: colorScale_def groupIds_def)
  show "scale_apply (colorScale ds) (groupIds ds ! i) = (schemeCategory10 ! (i mod 10), colorScale ds)"
    if "i < length (groupIds ds)" for i
    using that by (rule scale_apply_colorScale)
  show "fst (scale_apply (colorScale ds) (groupIds ds ! i))
           \<noteq> fst (scale_apply (colorScale ds) (groupIds ds ! j))"
    if "i < length (groupIds ds)" "j < length (groupIds ds)" "i mod 10 \<noteq> j mod 10" for i j
    using that by (simp add: scale_apply_colorScale palette_differs)
  show "inj_on (\<lambda>g. fst (scale_apply (colorScale ds) g)) (set (groupIds ds))"
    if le: "length (groupIds ds) \<le> 10"
  proof (rule inj_onI)
    fix g h
    assume "g \<in> set (groupIds ds)" "h \<in> set (groupIds ds)"
      and eq: "fst (scale_apply (colorScale ds) g) = fst (scale_apply (colorScale ds) h)"
    then obtain i j where i: "i < length (groupIds ds)" "g = groupIds ds ! i"
      and j: "j < length (groupIds ds)" "h = groupIds ds ! j"
      by (auto simp: in_set_conv_nth)
    from i j le have "i < 10" "j < 10" by simp_all
    with eq i j have "i = j"
      using palette_differs [of i j] by (auto simp: scale_apply_colorScale)
    with i j show "g = h" by simp
  qed
  show "length schemeCategory10 = 10" by (rule length_schemeCategory10)
  show "distinct schemeCategory10" by (rule distinct_schemeCategory10)
qed

text \<open>
  Groups \<open>7, 3, 7, 1, 2, 4, 5, 6, 8, 9, 3, 10, 11, 12\<close>: the first-seen order drops the
  second \<open>7\<close> and \<open>3\<close>; the eleventh and twelfth group wrap around to the colours of the
  first and second.
\<close>

theorem color_assignment_witness:
  "groupIds twelve_groups = [7, 3, 1, 2, 4, 5, 6, 8, 9, 10, 11, 12]
   \<and> fst (scale_apply (colorScale twelve_groups) 7) = ''#1f77b4''
   \<and> fst (scale_apply (colorScale twelve_groups) 3) = ''#ff7f0e''
   \<and> fst (scale_apply (colorScale twelve_groups) 11) = ''#1f77b4''
   \<and> fst (scale_apply (colorScale twelve_groups) 12) = ''#ff7f0e''
   \<and> fst (scale_apply (colorScale twelve_groups) 7) \<noteq> fst (scale_apply (colorScale twelve_groups) 3)
   \<and> inj_on (\<lambda>g. fst (scale_apply (colorScale example_payload) g)) (set (groupIds example_payload))"
proof -
  note t = color_assignment [of twelve_groups twelve_groups]
  note e = color_assignment [of example_payload example_payload]
  from conjunct1 [OF conjunct2 [OF conjunct2 [OF t]]]
  have c: "\<forall>i<12. scale_apply (colorScale twelve_groups) ([7, 3, 1, 2, 4, 5, 6, 8, 9, 10, 11, 12] ! i)
           = (schemeCategory10 ! (i mod 10), colorScale twelve_groups)"
    by (simp add: groupIds_twelve)
  from c [rule_format, of 0] c [rule_format, of 1] c [rule_format, of 10] c [rule_format, of 11]
  have v: "fst (scale_apply (colorScale twelve_groups) 7) = ''#1f77b4''"
    "fst (scale_apply (colorScale twelve_groups) 3) = ''#ff7f0e''"
    "fst (scale_apply (colorScale twelve_groups) 11) = ''#1f77b4''"
    "fst (scale_apply (colorScale twelve_groups) 12) = ''#ff7f0e''"
    by (simp_all add: schemeCategory10_def)
  from conjunct1 [OF conjunct2 [OF conjunct2 [OF conjunct2 [OF conjunct2 [OF e]]]]]
  have "inj_on (\<lambda>g. fst (scale_apply (colorScale example_payload) g)) (set (groupIds example_payload))"
    by (simp add: groupIds_example)
  with v show ?thesis by (simp add: groupIds_twelve)
qed


section \<open>C6: a drag gesture without movement\<close>

text \<open>
  Claim C6 as the code has it.  Let the simulation's tick respect pins.  For a node of
  the simulation, a \<^verbatim>\<open>start\<close> followed, after any number of ticks and no \<^verbatim>\<open>drag\<close> event, by
  an \<^verbatim>\<open>end\<close> leaves the node where it was; during the whole gesture the node is pinned at
  that position; afterwards \<^verbatim>\<open>fx\<close> and \<^verbatim>\<open>fy\<close> are \<^verbatim>\<open>null\<close>.  If no other drag gesture is
  active (\<^verbatim>\<open>event.active\<close> is \<open>0\<close>) the alpha target is \<open>0.3\<close> during the gesture and \<open>0\<close>
  after it.  If another gesture is active, neither handler touches the alpha target.
\<close>

theorem click_gesture_keeps_position:
  assumes "respects_pins tick" "subject < length (sim_nodes sim)"
  shows "xpos (sim_nodes (click_gesture tick ticks active subject sim) ! subject)
           = xpos (sim_nodes sim ! subject)
     \<and> ypos (sim_nodes (click_gesture tick ticks active subject sim) ! subject)
           = ypos (sim_nodes sim ! subject)
     \<and> fx (sim_nodes (click_gesture tick ticks active subject sim) ! subject) = None
     \<and> fy (sim_nodes (click_gesture tick ticks active subject sim) ! subject) = None
     \<and> (\<forall>j \<le> ticks.
           pinned (sim_nodes ((tick ^^ j) (drag_start active subject sim)) ! subject)
           \<and> xpos (sim_nodes ((tick ^^ j) (drag_start active subject sim)) ! subject)
               = xpos (sim_nodes sim ! subject)
           \<and> ypos (sim_nodes ((tick ^^ j) (drag_start active subject sim)) ! subject)
               = ypos (sim_nodes sim ! subject))
     \<and> (active = 0 \<longrightarrow> alphaTarget (drag_start active subject sim) = 0.3
           \<and> alphaTarget (click_gesture tick ticks active subject sim) = 0)
     \<and> (active \<noteq> 0 \<longrightarrow> alphaTarget (drag_start active subject sim) = alphaTarget sim
           \<and> alphaTarget (drag_end active subject sim') = alphaTarget sim')"
proof -
  let ?s = "drag_start active subject sim"
  note st = drag_start_subject [OF assms(2), of active]
  from assms(2) st(1) have len: "subject < length (sim_nodes ?s)" by simp
  have t: "length (sim_nodes ((tick ^^ j) ?s)) = length (sim_nodes ?s)
     \<and> fx (sim_nodes ((tick ^^ j) ?s) ! subject) = Some (xpos (sim_nodes sim ! subject))
     \<and> fy (sim_nodes ((tick ^^ j) ?s) ! subject) = Some (ypos (sim_nodes sim ! subject))
     \<and> xpos (sim_nodes ((tick ^^ j) ?s) ! subject) = xpos (sim_nodes sim ! subject)
     \<and> ypos (sim_nodes ((tick ^^ j) ?s) ! subject) = ypos (sim_nodes sim ! subject)" for j
    by (rule pinned_ticks [OF assms(1) len st(2) st(3) st(4) st(5)])
  from t [of ticks] len have len': "subject < length (sim_nodes ((tick ^^ ticks) ?s))" by simp
  note en = drag_end_subject [OF len', of active]
  have during: "\<forall>j \<le> ticks.
           pinned (sim_nodes ((tick ^^ j) ?s) ! subject)
           \<and> xpos (sim_nodes ((tick ^^ j) ?s) ! subject) = xpos (sim_nodes sim ! subject)
           \<and> ypos (sim_nodes ((tick ^^ j) ?s) ! subject) = ypos (sim_nodes sim ! subject)"
    using t by (simp add: pinned_def)
  have pos: "xpos (sim_nodes (click_gesture tick ticks active subject sim) ! subject)
           = xpos (sim_nodes sim ! subject)"
    "ypos (sim_nodes (click_gesture tick ticks active subject sim) ! subject)
           = ypos (sim_nodes sim ! subject)"
    using en t [of ticks] by (simp_all add: click_gesture_def)
  have pin: "fx (sim_nodes (click_gesture tick ticks active subject sim) ! subject) = None"
    "fy (sim_nodes (click_gesture tick ticks active subject sim) ! subject) = None"
    using en by (simp_all add: click_gesture_def)
  have al: "active = 0 \<longrightarrow> alphaTarget ?s = 0.3
           \<and> alphaTarget (click_gesture tick ticks active subject sim) = 0"
    "active \<noteq> 0 \<longrightarrow> alphaTarget ?s = alphaTarget sim
           \<and> alphaTarget (drag_end active subject sim') = alphaTarget sim'"
    by (simp_all add: alphaTarget_drag click_gesture_def)
  from pos pin during al show ?thesis by (intro conjI)
qed

text \<open>
  Node 1 of a simulation in which every node moves: pinned for three ticks, it is still
  at \<open>(400, 300)\<close> on release, unpinned, with alpha target \<open>0\<close>.
\<close>

theorem click_gesture_keeps_position_witness:
  "respects_pins (free_tick (1 / 50)) \<and> 1 < length (sim_nodes moving)
   \<and> xpos (sim_nodes (click_gesture (free_tick (1 / 50)) 3 0 1 moving) ! 1) = 400
   \<and> ypos (sim_nodes (click_gesture (free_tick (1 / 50)) 3 0 1 moving) ! 1) = 300
   \<and> fx (sim_nodes (click_gesture (free_tick (1 / 50)) 3 0 1 moving) ! 1) = None
   \<and> fy (sim_nodes (click_gesture (free_tick (1 / 50)) 3 0 1 moving) ! 1) = None
   \<and> alphaTarget (click_gesture (free_tick (1 / 50)) 3 0 1 moving) = 0"
proof -
  have l: "1 < length (sim_nodes moving)"
    by (simp add: moving_def forceSimulation_def seeded_def example_payload_def)
  have p: "xpos (sim_nodes moving ! Suc 0) = 400" "ypos (sim_nodes moving ! Suc 0) = 300"
    by (simp_all add: moving_def forceSimulation_def seeded_def example_payload_def)
  from click_gesture_keeps_position [OF respects_pins_free_tick l, of "1 / 50" 3 0]
  show ?thesis using l respects_pins_free_tick [of "1 / 50"] by (simp add: p)
qed

text \<open>
  While another gesture holds the alpha target at \<open>0.3\<close> (\<^verbatim>\<open>event.active\<close> is \<open>1\<close>), a
  pointer-down and pointer-up on node 1 leaves the target at \<open>0.3\<close>: the claim as stated,
  for every such gesture, fails here.
\<close>

theorem click_gesture_other_drag_counterexample:
  "alphaTarget (click_gesture (free_tick (1 / 50)) 0 1 1 (moving\<lparr>alphaTarget := 0.3\<rparr>)) \<noteq> 0"
  by (simp add: click_gesture_def alphaTarget_drag)


section \<open>C7: dimensions after a resize\<close>

text \<open>
  Claim C7 as the code has it.  For a container of positive \<^verbatim>\<open>clientWidth\<close> \<open>W\<close> both
  \<^verbatim>\<open>handleResize\<close> functions store width \<open>W\<close> and height \<open>min (0.75 * W) 600\<close>.  A width of \<open>0\<close>
  is replaced by \<open>800\<close> first, so the stored dimensions are \<open>800\<close> by \<open>600\<close>.  The product
  \<open>0.75 * W\<close> is exact in floating point for every integer width a browser reports.
\<close>

theorem resize_dimensions:
  "(0 < W \<longrightarrow>
      handleResize (Some W) dims = \<lparr>width = real W, height = min (0.75 * real W) 600\<rparr>
    \<and> treemap_handleResize (Some W) dims = \<lparr>width = real W, height = min (0.75 * real W) 600\<rparr>)
   \<and> handleResize (Some 0) dims = \<lparr>width = 800, height = 600\<rparr>
   \<and> treemap_handleResize (Some 0) dims = \<lparr>width = 800, height = 600\<rparr>"
  by (simp add: handleResize_def treemap_handleResize_def Let_def mult.commute)

text \<open>
  Width \<open>400\<close> gives \<open>400\<close> by \<open>300\<close>; width \<open>1000\<close> gives \<open>1000\<close> by \<open>600\<close>.
\<close>

theorem resize_dimensions_witness:
  "handleResize (Some 400) \<lparr>width = 800, height = 600\<rparr> = \<lparr>width = 400, height = 300\<rparr>
   \<and> treemap_handleResize (Some 400) \<lparr>width = 800, height = 600\<rparr> = \<lparr>width = 400, height = 300\<rparr>
   \<and> handleResize (Some 1000) \<lparr>width = 800, height = 600\<rparr> = \<lparr>width = 1000, height = 600\<rparr>
   \<and> treemap_handleResize (Some 1000) \<lparr>width = 400, height = 300\<rparr> = \<lparr>width = 1000, height = 600\<rparr>"
  using resize_dimensions [of 400 "\<lparr>width = 800, height = 600\<rparr>"]
    resize_dimensions [of 1000 "\<lparr>width = 800, height = 600\<rparr>"]
    resize_dimensions [of 1000 "\<lparr>width = 400, height = 300\<rparr>"]
  by simp

text \<open>
  A container of width \<open>0\<close> gets height \<open>600\<close>, not \<open>min (0.75 * 0) 600 = 0\<close>.
\<close>

theorem resize_zero_width_counterexample:
  "height (handleResize (Some 0) \<lparr>width = 800, height = 600\<rparr>) \<noteq> min (0.75 * real 0) 600
   \<and> height (treemap_handleResize (Some 0) \<lparr>width = 800, height = 600\<rparr>) \<noteq> min (0.75 * real 0) 600"
  by (simp add: handleResize_def treemap_handleResize_def)


section \<open>C8: the first paint comes after the pre-warm ticks\<close>

text \<open>
  Claim C8.  When the visualization effect has run, \<^verbatim>\<open>updatePositions\<close> has been called
  exactly once, and what it wrote are the positions of the seeded nodes after fifty
  synchronous ticks.  However often the timer fires afterwards, this stays the first
  entry of the paint log.
\<close>

theorem first_paint_after_prewarm:
  "paints (createVisualization tick random n dims ds) =
     [updatePositions
        (sim_nodes ((tick ^^ 50) (forceSimulation (simulationNodes dims random n (nodes ds)))))
        (simulationLinks ds)]
   \<and> hd (paints ((timer_step tick ^^ m) (createVisualization tick random n dims ds))) =
     updatePositions
        (sim_nodes ((tick ^^ 50) (forceSimulation (simulationNodes dims random n (nodes ds)))))
        (simulationLinks ds)"
proof -
  obtain ps where "paints ((timer_step tick ^^ m) (createVisualization tick random n dims ds))
       = paints (createVisualization tick random n dims ds) @ ps"
    using paints_timer_steps by blast
  then show ?thesis by (simp add: paints_createVisualization)
qed

text \<open>
  With a tick that moves every node one unit to the right, the nodes seeded at
  \<open>(400, 300)\<close> are first painted at \<open>(450, 300)\<close>.
\<close>

theorem first_paint_after_prewarm_witness:
  "paints (createVisualization drift (\<lambda>n. 1 / 2) 0 \<lparr>width = 800, height = 600\<rparr> example_payload)
     = [\<lparr>circles = [(450, 300), (450, 300), (450, 300)],
         lines = [((450, 300), (450, 300))],
         labels = [(450, 300), (450, 300), (450, 300)]\<rparr>]
   \<and> map (\<lambda>d. (xpos d, ypos d))
        (simulationNodes \<lparr>width = 800, height = 600\<rparr> (\<lambda>n. 1 / 2) 0 (nodes example_payload))
     = [(400, 300), (400, 300), (400, 300)]"
proof -
  have s: "simulationLinks example_payload = [\<lparr>sl_source = 0, sl_target = 1, sl_value = 4\<rparr>]"
    by (simp add: simulationLinks_def example_payload_def nodeMap_def simulationLink_def
        List.map_filter_simps)
  from conjunct1 [OF first_paint_after_prewarm
      [of drift "\<lambda>n. 1 / 2" 0 "\<lparr>width = 800, height = 600\<rparr>" example_payload 0]]
  show ?thesis
    by (simp add: drift_funpow forceSimulation_def s updatePositions_def or0_def)
      (simp add: example_payload_def)
qed


section \<open>C9: a failed load is terminal\<close>

text \<open>
  Claim C9.  If the fetch fails, the response is not \<^verbatim>\<open>ok\<close>, or the body does not parse
  (or parses to something without the two arrays), the mounted component shows the
  error view with \<^verbatim>\<open>data\<close> still \<^verbatim>\<open>null\<close>, no scene and no zoom behaviour, after exactly one
  \<^verbatim>\<open>fetch\<close>; and no sequence of resizes, button clicks and timer firings changes that
  state in any way.
\<close>

theorem failed_load_is_terminal:
  assumes "load_fails r"
  shows "run tick random events (mount tick random r) = mount tick random r
     \<and> error (mount tick random r) = Some ''Error loading network graph data''
     \<and> render (mount tick random r) = ErrorView
     \<and> data (mount tick random r) = None
     \<and> scene (mount tick random r) = None
     \<and> \<not> zoomBehaviorRef (mount tick random r)
     \<and> fetches (mount tick random r) = 1"
proof -
  from assms have m: "mount tick random r = failed"
    by (simp add: mount_fails failed_def)
  show ?thesis
    unfolding m run_failed by (simp add: failed_def initial_def render_def)
qed

text \<open>
  A response that is not \<^verbatim>\<open>ok\<close>, a missing response and a body that is not JSON, each
  followed by some events.
\<close>

theorem failed_load_is_terminal_witness:
  "load_fails NoResponse \<and> load_fails (Response False (Payload example_payload))
   \<and> load_fails (Response True InvalidJson)
   \<and> data (run (free_tick (1 / 50)) (\<lambda>n. 1 / 2) [WindowResize 500, Click ZoomIn, TimerFires, Click ZoomReset]
        (mount (free_tick (1 / 50)) (\<lambda>n. 1 / 2) (Response False (Payload example_payload)))) = None
   \<and> scene (run (free_tick (1 / 50)) (\<lambda>n. 1 / 2) [WindowResize 500, Click ZoomIn, TimerFires, Click ZoomReset]
        (mount (free_tick (1 / 50)) (\<lambda>n. 1 / 2) (Response False (Payload example_payload)))) = None
   \<and> render (run (free_tick (1 / 50)) (\<lambda>n. 1 / 2) [TimerFires, WindowResize 0]
        (mount (free_tick (1 / 50)) (\<lambda>n. 1 / 2) NoResponse)) = ErrorView
   \<and> fetches (run (free_tick (1 / 50)) (\<lambda>n. 1 / 2) [Click ZoomOut]
        (mount (free_tick (1 / 50)) (\<lambda>n. 1 / 2) (Response True InvalidJson))) = 1"
proof -
  have h: "load_fails NoResponse" "load_fails (Response False (Payload example_payload))"
    "load_fails (Response True InvalidJson)"
    by simp_all
  from failed_load_is_terminal [OF h(2), of "free_tick (1 / 50)" "\<lambda>n. 1 / 2"
      "[WindowResize 500, Click ZoomIn, TimerFires, Click ZoomReset]"]
    failed_load_is_terminal [OF h(1), of "free_tick (1 / 50)" "\<lambda>n. 1 / 2" "[TimerFires, WindowResize 0]"]
    failed_load_is_terminal [OF h(3), of "free_tick (1 / 50)" "\<lambda>n. 1 / 2" "[Click ZoomOut]"]
  show ?thesis using h by simp
qed


section \<open>C10: the connection count of the tooltip\<close>

text \<open>
  Claim C10.  Whenever the simulation nodes carry the ids of the dataset's nodes, the
  connection count in the tooltip of a node is the number of validated links with that
  node as source plus the number with that node as target.  A self-loop is counted on
  both sides, and a node without links gets \<open>0\<close>.
\<close>

theorem tooltip_connection_count:
  assumes "map node_id simNodes = map node_id (nodes raw)"
  shows "tip_connections (tooltip (nodeConnectionCounts simNodes (simulationLinks (fst (validateLinks raw)))) d)
       = length (filter (\<lambda>l. source l = node_id d) (links (fst (validateLinks raw))))
       + length (filter (\<lambda>l. target l = node_id d) (links (fst (validateLinks raw))))"
  by (simp add: tooltip_def connections_validated [OF assms])

text \<open>
  With a self-loop at p, a link q--p and a dangling link from q: p shows 3, q shows 1
  and r shows 0.
\<close>

theorem tooltip_connection_count_witness:
  "tip_connections (tooltip (nodeConnectionCounts (seeded loop_payload)
       (simulationLinks (fst (validateLinks loop_payload)))) (seeded loop_payload ! 0)) = 3
   \<and> tip_connections (tooltip (nodeConnectionCounts (seeded loop_payload)
       (simulationLinks (fst (validateLinks loop_payload)))) (seeded loop_payload ! 1)) = 1
   \<and> tip_connections (tooltip (nodeConnectionCounts (seeded loop_payload)
       (simulationLinks (fst (validateLinks loop_payload)))) (seeded loop_payload ! 2)) = 0"
proof -
  have ids: "map node_id (seeded loop_payload) = map node_id (nodes loop_payload)"
    by (simp add: seeded_def map_node_id_simulationNodes)
  have l: "links (fst (validateLinks loop_payload)) = take 2 (links loop_payload)"
    by (simp add: links_validateLinks nodeIds_def loop_payload_def)
  have n: "node_id (seeded loop_payload ! 0) = ''p''" "node_id (seeded loop_payload ! 1) = ''q''"
    "node_id (seeded loop_payload ! 2) = ''r''"
    by (simp_all add: seeded_def loop_payload_def)
  have r: "length (filter (\<lambda>l. source l = ''p'') (take 2 (links loop_payload)))
       + length (filter (\<lambda>l. target l = ''p'') (take 2 (links loop_payload))) = 3"
    "length (filter (\<lambda>l. source l = ''q'') (take 2 (links loop_payload)))
       + length (filter (\<lambda>l. target l = ''q'') (take 2 (links loop_payload))) = 1"
    "length (filter (\<lambda>l. source l = ''r'') (take 2 (links loop_payload)))
       + length (filter (\<lambda>l. target l = ''r'') (take 2 (links loop_payload))) = 0"
    by (simp_all add: loop_payload_def)
  show ?thesis
    using tooltip_connection_count [OF ids, of "seeded loop_payload ! 0"]
      tooltip_connection_count [OF ids, of "seeded loop_payload ! 1"]
      tooltip_connection_count [OF ids, of "seeded loop_payload ! 2"]
    by (simp only: l n r simp_thms)
qed

end
